theory Spec2Isabelle
  imports Complex_Main
begin

section \<open>Token bucket rate limiter: the data model\<close>

text \<open>
  The TypeScript sources are \<^verbatim>\<open>src/tokenBucket.ts\<close> (class \<^verbatim>\<open>TokenBucket\<close>),
  \<^verbatim>\<open>src/redisBucket.ts\<close> (the Lua script and class \<^verbatim>\<open>RedisTokenBucket\<close>) and
  \<^verbatim>\<open>src/manager.ts\<close> (class \<^verbatim>\<open>TokenBucketManager\<close>).

  Conventions of the embedding.
  \<^item> A JavaScript \<^verbatim>\<open>number\<close> that carries tokens, rates or milliseconds is a \<open>real\<close>.
    The methods are given twice. \<open>refill\<close>, \<open>allow\<close>, \<open>check\<close>, \<open>timeToRefill\<close> and
    \<open>getState\<close> compute exactly; orderings, equivalences, counters and frames are stated
    on them. \<open>refill64\<close>, \<open>allow64\<close>, \<open>timeToRefill64\<close> and \<open>getState64\<close> round every
    operation to the nearest double as the code does; the number that \<^verbatim>\<open>timeToRefill\<close>
    returns is stated on them. \<^verbatim>\<open>NaN\<close> and infinite arguments are outside both. The
    infinity that the code itself produces in \<^verbatim>\<open>timeToRefill\<close> is written out with the
    type \<open>duration\<close>.
  \<^item> The three request counters are \<open>nat\<close>: they count without the loss of precision
    that a double has beyond \<open>2 ^ 53\<close>.
  \<^item> A clock \<^verbatim>\<open>() => number\<close> is a closure with hidden state. It is modelled by the
    sequence of its readings, \<open>getTime b n\<close> being what the \<open>n\<close>-th call returns, and
    by the number \<open>clockReads b\<close> of calls made so far. Every sequence of readings is
    a clock, so nothing is assumed about how time moves.
  \<^item> A hook is a caller's function whose result is ignored: it either \<open>Returns\<close> or
    \<open>Throws\<close>, and a throw surfaces as the error \<open>HookError\<close>. A hook that calls back
    into the bucket it belongs to is not modelled.
  \<^item> A method that mutates \<^verbatim>\<open>this\<close> takes the object and returns the new object next
    to its result; a method that can throw returns \<open>error + 'a\<close>.
\<close>

datatype error =
    ConfigError     \<comment> \<open>'capacity must be > 0 and refillRate must be >= 0'\<close>
  | ShortageError   \<comment> \<open>'Cannot acquire tokens: refillRate is 0 and bucket is empty'\<close>
  | TimeoutError    \<comment> \<open>'Timeout while waiting for ... token(s)'\<close>
  | HookError       \<comment> \<open>whatever a caller's hook throws\<close>
  | FactoryError    \<comment> \<open>whatever a caller's bucket factory throws\<close>
  | ScriptError     \<comment> \<open>a Lua run-time error inside the script\<close>

datatype outcome = Returns | Throws

text \<open>Interface \<^verbatim>\<open>TokenBucketState\<close> of \<^verbatim>\<open>types.ts\<close>.\<close>

record TokenBucketState =
  st_tokens :: real
  st_capacity :: real
  st_refillRate :: real
  st_lastRefill :: real

text \<open>Interface \<^verbatim>\<open>TokenBucketOptions\<close> of \<^verbatim>\<open>types.ts\<close>.\<close>

record TokenBucketOptions =
  opt_capacity :: real
  opt_refillRate :: real
  opt_currentTime :: "(nat \<Rightarrow> real) option"
  opt_onRateLimit :: "(TokenBucketState \<Rightarrow> outcome) option"

text \<open>The private fields of class \<^verbatim>\<open>TokenBucket\<close>.\<close>

record TokenBucket =
  capacity :: real
  refillRate :: real
  tokens :: real
  lastRefillTimestamp :: real
  getTime :: "nat \<Rightarrow> real"
  clockReads :: nat
  onRateLimit :: "(TokenBucketState \<Rightarrow> outcome) option"
  totalRequests :: nat
  allowedRequests :: nat
  limitedRequests :: nat

text \<open>The object literal returned by \<^verbatim>\<open>getMetrics\<close>.\<close>

record Metrics =
  m_totalRequests :: nat
  m_allowed :: nat
  m_limited :: nat

text \<open>
  The value of \<^verbatim>\<open>Math.ceil((needed / this.refillRate) * 1000)\<close>: an integer number of
  milliseconds, or \<^verbatim>\<open>Infinity\<close> when a positive \<^verbatim>\<open>needed\<close> is divided by a zero rate.
\<close>

datatype duration = Ms int | Infinite

section \<open>The local bucket\<close>

text \<open>
  \<^verbatim>\<open>new TokenBucket(options)\<close>. The constructor stamps \<^verbatim>\<open>lastRefillTimestamp\<close> with
  \<^verbatim>\<open>Date.now()\<close>, whatever clock the options carry; \<open>dateNow\<close> is the sequence of
  readings of \<^verbatim>\<open>Date.now()\<close> from the construction on. Without \<^verbatim>\<open>currentTime\<close> the
  bucket's clock is \<^verbatim>\<open>Date.now\<close> itself, that is, the rest of that sequence.
\<close>

definition TokenBucket_new :: "TokenBucketOptions \<Rightarrow> (nat \<Rightarrow> real) \<Rightarrow> error + TokenBucket" where
  "TokenBucket_new options dateNow =
     (if opt_capacity options \<le> 0 \<or> opt_refillRate options < 0 then Inl ConfigError
      else Inr \<lparr> capacity = opt_capacity options,
                 refillRate = opt_refillRate options,
                 tokens = opt_capacity options,
                 lastRefillTimestamp = dateNow 0,
                 getTime = (case opt_currentTime options of
                              Some f \<Rightarrow> f
                            | None \<Rightarrow> (\<lambda>n. dateNow (Suc n))),
                 clockReads = 0,
                 onRateLimit = opt_onRateLimit options,
                 totalRequests = 0,
                 allowedRequests = 0,
                 limitedRequests = 0 \<rparr>)"

text \<open>One call of \<^verbatim>\<open>this.getTime()\<close>: the next reading, and the clock moved on by one.\<close>

definition readClock :: "TokenBucket \<Rightarrow> real \<times> TokenBucket" where
  "readClock b = (getTime b (clockReads b), b\<lparr>clockReads := Suc (clockReads b)\<rparr>)"

text \<open>\<^verbatim>\<open>private refill()\<close>.\<close>

definition refill :: "TokenBucket \<Rightarrow> TokenBucket" where
  "refill b =
     (let (now, b1) = readClock b;
          elapsedSeconds = (now - lastRefillTimestamp b1) / 1000
      in if elapsedSeconds > 0
         then let newTokens = tokens b1 + elapsedSeconds * refillRate b1
              in b1\<lparr>tokens := min newTokens (capacity b1), lastRefillTimestamp := now\<rparr>
         else b1)"

text \<open>
  \<^verbatim>\<open>Number(x.toFixed(4))\<close>: the nearest multiple of \<open>1/10000\<close>, a tie going away from
  zero.
\<close>

definition toFixed4 :: "real \<Rightarrow> real" where
  "toFixed4 x =
     (if x < 0 then - (of_int \<lfloor>- x * 10000 + 1 / 2\<rfloor> / 10000)
      else of_int \<lfloor>x * 10000 + 1 / 2\<rfloor> / 10000)"

text \<open>\<^verbatim>\<open>getState()\<close>.\<close>

definition getState :: "TokenBucket \<Rightarrow> TokenBucketState \<times> TokenBucket" where
  "getState b =
     (let b1 = refill b
      in (\<lparr> st_tokens = toFixed4 (tokens b1),
             st_capacity = capacity b1,
             st_refillRate = refillRate b1,
             st_lastRefill = lastRefillTimestamp b1 \<rparr>, b1))"

text \<open>
  \<^verbatim>\<open>allow(cost)\<close>. The hook is called with no \<^verbatim>\<open>try\<close> around it: what it throws leaves
  \<^verbatim>\<open>allow\<close> in place of the \<^verbatim>\<open>return false\<close>.
\<close>

definition allow :: "real \<Rightarrow> TokenBucket \<Rightarrow> (error + bool) \<times> TokenBucket" where
  "allow cost b =
     (let b1 = b\<lparr>totalRequests := totalRequests b + 1\<rparr>;
          b2 = refill b1
      in if tokens b2 \<ge> cost
         then (Inr True, b2\<lparr>tokens := tokens b2 - cost,
                             allowedRequests := allowedRequests b2 + 1\<rparr>)
         else let b3 = b2\<lparr>limitedRequests := limitedRequests b2 + 1\<rparr>
              in (case onRateLimit b3 of
                    None \<Rightarrow> (Inr False, b3)
                  | Some hook \<Rightarrow>
                      (let (state, b4) = getState b3
                       in (case hook state of
                             Throws \<Rightarrow> (Inl HookError, b4)
                           | Returns \<Rightarrow> (Inr False, b4)))))"

text \<open>\<^verbatim>\<open>check(cost)\<close>.\<close>

definition check :: "real \<Rightarrow> TokenBucket \<Rightarrow> bool \<times> TokenBucket" where
  "check cost b = (let b1 = refill b in (tokens b1 \<ge> cost, b1))"

text \<open>
  \<^verbatim>\<open>timeToRefill(cost)\<close>. Past the early return \<^verbatim>\<open>needed\<close> is positive, so the
  quotient by a zero rate is \<^verbatim>\<open>Infinity\<close>, and so are its product and its ceiling.
\<close>

definition timeToRefill :: "real \<Rightarrow> TokenBucket \<Rightarrow> duration \<times> TokenBucket" where
  "timeToRefill cost b =
     (let b1 = refill b
      in if tokens b1 \<ge> cost then (Ms 0, b1)
         else let needed = cost - tokens b1
              in if refillRate b1 = 0 then (Infinite, b1)
                 else (Ms \<lceil>(needed / refillRate b1) * 1000\<rceil>, b1))"

text \<open>\<^verbatim>\<open>reset()\<close>.\<close>

definition reset :: "TokenBucket \<Rightarrow> TokenBucket" where
  "reset b =
     (let b1 = b\<lparr>tokens := capacity b\<rparr>;
          (now, b2) = readClock b1
      in b2\<lparr>lastRefillTimestamp := now\<rparr>)"

text \<open>\<^verbatim>\<open>getMetrics()\<close>.\<close>

definition getMetrics :: "TokenBucket \<Rightarrow> Metrics" where
  "getMetrics b =
     \<lparr> m_totalRequests = totalRequests b,
       m_allowed = allowedRequests b,
       m_limited = limitedRequests b \<rparr>"

text \<open>
  The two comparisons \<^verbatim>\<open>acquire\<close> makes on the wait: \<^verbatim>\<open>wait <= 0\<close> and
  \<^verbatim>\<open>elapsed + wait > timeoutMs\<close>, with \<^verbatim>\<open>Infinity\<close> above every number.
\<close>

fun nonPositive :: "duration \<Rightarrow> bool" where
  "nonPositive (Ms n) = (n \<le> 0)"
| "nonPositive Infinite = False"

fun exceeds :: "real \<Rightarrow> duration \<Rightarrow> real \<Rightarrow> bool" where
  "exceeds elapsed (Ms n) timeoutMs = (elapsed + of_int n > timeoutMs)"
| "exceeds elapsed Infinite timeoutMs = True"

text \<open>
  The \<^verbatim>\<open>while (true)\<close> loop of \<^verbatim>\<open>acquire\<close>. It need not end (a clock that stands still
  and no deadline), so it is a partial function: \<open>None\<close> is a run that never returns.
  \<^verbatim>\<open>await delay(wait)\<close> touches no field of the bucket; the time it lets pass shows
  in the later readings of the clock. Calls of other code on the same bucket during the
  suspension are not modelled.
\<close>

partial_function (option) acquire_loop ::
  "real \<Rightarrow> real option \<Rightarrow> real \<Rightarrow> TokenBucket \<Rightarrow> ((error + unit) \<times> TokenBucket) option" where
  "acquire_loop cost timeoutMs start b =
     (let (r, b1) = allow cost b
      in case r of
           Inl e \<Rightarrow> Some (Inl e, b1)
         | Inr ok \<Rightarrow>
             if ok then Some (Inr (), b1)
             else let (wait, b2) = timeToRefill cost b1
                  in if nonPositive wait then acquire_loop cost timeoutMs start b2
                     else (case timeoutMs of
                             None \<Rightarrow> acquire_loop cost timeoutMs start b2
                           | Some limit \<Rightarrow>
                               (let (now, b3) = readClock b2;
                                    elapsed = now - start
                                in if exceeds elapsed wait limit
                                   then Some (Inl TimeoutError, b3)
                                   else acquire_loop cost timeoutMs start b3)))"

text \<open>
  \<^verbatim>\<open>acquire(cost, timeoutMs)\<close>; \<open>timeoutMs = None\<close> is \<^verbatim>\<open>undefined\<close>. The \<^verbatim>\<open>&&\<close> of
  the first test calls \<^verbatim>\<open>check\<close> only when the rate is not positive.
\<close>

definition acquire ::
  "real \<Rightarrow> real option \<Rightarrow> TokenBucket \<Rightarrow> ((error + unit) \<times> TokenBucket) option" where
  "acquire cost timeoutMs b =
     (let (start, b0) = readClock b
      in if refillRate b0 \<le> 0
         then (let (ok, b1) = check cost b0
               in if \<not> ok then Some (Inl ShortageError, b1)
                  else acquire_loop cost timeoutMs start b1)
         else acquire_loop cost timeoutMs start b0)"

subsection \<open>One pass through the loop of \<^verbatim>\<open>acquire\<close>\<close>

text \<open>
  A pass that starts with the bucket \<open>b\<close> ends in the \<^verbatim>\<open>throw\<close> of the timeout error
  when \<^verbatim>\<open>allow\<close> returned false, the wait was not skipped by \<^verbatim>\<open>if (wait <= 0) continue\<close>,
  a deadline is set and \<^verbatim>\<open>elapsed + wait > timeoutMs\<close>.
\<close>

definition timedOut :: "real \<Rightarrow> real option \<Rightarrow> real \<Rightarrow> TokenBucket \<Rightarrow> bool" where
  "timedOut cost timeoutMs start b =
     (let (r, b1) = allow cost b;
          (wait, b2) = timeToRefill cost b1;
          (now, b3) = readClock b2
      in r = Inr False \<and> \<not> nonPositive wait \<and>
         (case timeoutMs of None \<Rightarrow> False | Some limit \<Rightarrow> exceeds (now - start) wait limit))"

text \<open>The bucket as the timeout error leaves it.\<close>

definition timedOutBucket :: "real \<Rightarrow> TokenBucket \<Rightarrow> TokenBucket" where
  "timedOutBucket cost b = snd (readClock (snd (timeToRefill cost (snd (allow cost b)))))"

text \<open>
  The condition in the words of the specification: a failed \<^verbatim>\<open>allow\<close>, a deadline, and
  the time elapsed since entry plus the computed wait beyond the deadline. It does not
  ask for a positive wait.
\<close>

definition timeoutDue :: "real \<Rightarrow> real option \<Rightarrow> real \<Rightarrow> TokenBucket \<Rightarrow> bool" where
  "timeoutDue cost timeoutMs start b =
     (let (r, b1) = allow cost b;
          (wait, b2) = timeToRefill cost b1;
          (now, b3) = readClock b2
      in r = Inr False \<and>
         (case timeoutMs of None \<Rightarrow> False | Some limit \<Rightarrow> exceeds (now - start) wait limit))"

text \<open>
  The bucket with which the next pass starts, when this pass neither returns nor
  throws: after \<^verbatim>\<open>continue\<close>, or after the suspension.
\<close>

definition retried :: "real \<Rightarrow> real option \<Rightarrow> real \<Rightarrow> TokenBucket \<Rightarrow> TokenBucket option" where
  "retried cost timeoutMs start b =
     (let (r, b1) = allow cost b
      in if r \<noteq> Inr False then None
         else let (wait, b2) = timeToRefill cost b1
              in if nonPositive wait then Some b2
                 else (case timeoutMs of
                         None \<Rightarrow> Some b2
                       | Some limit \<Rightarrow>
                           (let (now, b3) = readClock b2
                            in if exceeds (now - start) wait limit then None else Some b3)))"

text \<open>The bucket at the start of pass number \<open>n\<close>, if the loop gets that far.\<close>

fun passes :: "nat \<Rightarrow> real \<Rightarrow> real option \<Rightarrow> real \<Rightarrow> TokenBucket \<Rightarrow> TokenBucket option" where
  "passes 0 cost timeoutMs start b = Some b"
| "passes (Suc n) cost timeoutMs start b =
     (case retried cost timeoutMs start b of
        None \<Rightarrow> None
      | Some b' \<Rightarrow> passes n cost timeoutMs start b')"

text \<open>
  The bucket with which the first pass starts: \<^verbatim>\<open>acquire\<close> has read the clock for
  \<^verbatim>\<open>start\<close> and, for a rate that is not positive, has called \<^verbatim>\<open>check\<close>. \<open>None\<close> is
  the immediate failure for a permanent shortage.
\<close>

definition loopEntry :: "real \<Rightarrow> TokenBucket \<Rightarrow> TokenBucket option" where
  "loopEntry cost b =
     (let (start, b0) = readClock b
      in if refillRate b0 \<le> 0
         then (let (ok, b1) = check cost b0 in if \<not> ok then None else Some b1)
         else Some b0)"

subsection \<open>Sequences of calls\<close>

text \<open>
  A caller's use of one bucket is a list of calls. A call that throws (a hook's error
  out of \<^verbatim>\<open>allow\<close>) leaves the object as the throw found it, and the caller goes on.
\<close>

datatype call = Allow real | Check real | TimeToRefill real | GetState | Reset

fun call_cost_ok :: "call \<Rightarrow> bool" where
  "call_cost_ok (Allow cost) = (0 \<le> cost)"
| "call_cost_ok _ = True"

fun perform :: "call \<Rightarrow> TokenBucket \<Rightarrow> TokenBucket" where
  "perform (Allow cost) b = snd (allow cost b)"
| "perform (Check cost) b = snd (check cost b)"
| "perform (TimeToRefill cost) b = snd (timeToRefill cost b)"
| "perform GetState b = snd (getState b)"
| "perform Reset b = reset b"

fun run :: "call list \<Rightarrow> TokenBucket \<Rightarrow> TokenBucket" where
  "run [] b = b"
| "run (c # cs) b = run cs (perform c b)"

text \<open>
  The invariant of the bucket's own fields: a refill rate that is not negative and a
  token count between zero and the capacity.
\<close>

definition bounded :: "TokenBucket \<Rightarrow> bool" where
  "bounded b \<longleftrightarrow> 0 \<le> refillRate b \<and> 0 \<le> tokens b \<and> tokens b \<le> capacity b"

section \<open>The local bucket in binary64 arithmetic\<close>

text \<open>
  A JavaScript \<^verbatim>\<open>number\<close> is an IEEE 754 binary64 value, and every \<^verbatim>\<open>+\<close>, \<^verbatim>\<open>-\<close>, \<^verbatim>\<open>*\<close>
  and \<^verbatim>\<open>/\<close> of the code returns the double nearest to the exact result, a tie going to
  the even significand. The definitions of the previous section compute exactly; the
  definitions of this section round as the code does, and they are the ones to consult
  for the number a method returns. The finite doubles are the reals that \<open>binary64\<close>
  leaves unchanged.
\<close>












section \<open>The Redis-backed bucket\<close>

text \<open>
  The store: for every key a hash from field names to numbers (a key that was never
  written has the empty hash), and the idle expiry set by \<^verbatim>\<open>EXPIRE\<close>. Redis keeps the
  fields as strings and turns the numbers of a script's reply into integers; both
  conversions belong to the server, not to this repository, and the model keeps the
  numbers as the script computes them.
\<close>

record RedisStore =
  hashes :: "string \<Rightarrow> string \<rightharpoonup> real"
  expires :: "string \<rightharpoonup> real"

text \<open>The reply \<^verbatim>\<open>{allowed, tokens}\<close> or \<^verbatim>\<open>{allowed, tokens, lastRefill}\<close>.\<close>

type_synonym ScriptReply = "int \<times> real \<times> real option"

text \<open>
  \<^verbatim>\<open>REDIS_TOKEN_BUCKET_LUA\<close>, one run of the script. \<open>cap\<close> and \<open>rate\<close> are the
  script's \<^verbatim>\<open>capacity\<close> and \<^verbatim>\<open>refillRate\<close>; \<open>consume\<close> and \<open>returnState\<close>
  are the tests \<^verbatim>\<open>ARGV[5] == "1"\<close> and \<^verbatim>\<open>ARGV[6] == "1"\<close>. Only \<^verbatim>\<open>tokens\<close> is tested
  for absence; a hash with \<^verbatim>\<open>tokens\<close> and without \<^verbatim>\<open>lastRefill\<close> makes the
  subtraction \<^verbatim>\<open>nowMs - lastRefill\<close> a Lua error.
\<close>

definition REDIS_TOKEN_BUCKET_LUA ::
  "string \<Rightarrow> real \<Rightarrow> real \<Rightarrow> real \<Rightarrow> real \<Rightarrow> bool \<Rightarrow> bool \<Rightarrow> real \<Rightarrow> RedisStore
     \<Rightarrow> error + (ScriptReply \<times> RedisStore)" where
  "REDIS_TOKEN_BUCKET_LUA key cap rate cost nowMs consume returnState ttlSeconds s =
     (let data = hashes s key
      in case (case data ''tokens'' of
                 None \<Rightarrow> Some (cap, nowMs)
               | Some t \<Rightarrow> (case data ''lastRefill'' of
                              None \<Rightarrow> None
                            | Some l \<Rightarrow> Some (t, l))) of
           None \<Rightarrow> Inl ScriptError
         | Some (tokens0, lastRefill0) \<Rightarrow>
             (let elapsedMs = nowMs - lastRefill0;
                  (tokens1, lastRefill1) =
                     (if elapsedMs > 0
                      then (let refillAmount = (elapsedMs / 1000) * rate;
                                t = tokens0 + refillAmount
                            in (if t > cap then cap else t, nowMs))
                      else (tokens0, lastRefill0));
                  allowed = (if tokens1 \<ge> cost then 1 else 0);
                  tokens2 = (if tokens1 \<ge> cost \<and> consume then tokens1 - cost else tokens1);
                  s1 = s\<lparr>hashes := (hashes s)
                          (key := (hashes s key)(''tokens'' \<mapsto> tokens2,
                                                 ''lastRefill'' \<mapsto> lastRefill1))\<rparr>;
                  s2 = (if ttlSeconds > 0 then s1\<lparr>expires := (expires s1)(key \<mapsto> ttlSeconds)\<rparr>
                        else s1)
              in Inr ((allowed, tokens2, if returnState then Some lastRefill1 else None), s2)))"

text \<open>
  The fields of class \<^verbatim>\<open>RedisTokenBucket\<close>; \<open>r_key\<close> is the prefixed key. The client
  \<^verbatim>\<open>redis\<close> is the store the methods take and return. \<^verbatim>\<open>scriptSha\<close> only chooses
  between \<^verbatim>\<open>EVALSHA\<close> and \<^verbatim>\<open>EVAL\<close> of the same script and is left out.
\<close>

record RedisTokenBucket =
  r_capacity :: real
  r_refillRate :: real
  r_getTime :: "nat \<Rightarrow> real"
  r_clockReads :: nat
  r_key :: string
  r_ttlSeconds :: "real option"
  r_onRateLimit :: "(string \<Rightarrow> TokenBucketState \<Rightarrow> outcome) option"
  r_totalRequests :: nat
  r_allowedRequests :: nat
  r_limitedRequests :: nat

text \<open>
  \<^verbatim>\<open>private runScript(cost, options)\<close>; the two optional flags arrive with their
  defaults (\<^verbatim>\<open>consume ?? true\<close>, \<^verbatim>\<open>returnState ?? false\<close>) already applied.
\<close>

definition runScript ::
  "real \<Rightarrow> bool \<Rightarrow> bool \<Rightarrow> RedisTokenBucket \<Rightarrow> RedisStore
     \<Rightarrow> (error + ScriptReply) \<times> RedisTokenBucket \<times> RedisStore" where
  "runScript cost consume returnState rb s =
     (let now = r_getTime rb (r_clockReads rb);
          rb1 = rb\<lparr>r_clockReads := Suc (r_clockReads rb)\<rparr>;
          ttlSeconds = (case r_ttlSeconds rb1 of Some t \<Rightarrow> t | None \<Rightarrow> 0)
      in case REDIS_TOKEN_BUCKET_LUA (r_key rb1) (r_capacity rb1) (r_refillRate rb1) cost now
                consume returnState ttlSeconds s of
           Inl e \<Rightarrow> (Inl e, rb1, s)
         | Inr (reply, s1) \<Rightarrow> (Inr reply, rb1, s1))"

text \<open>\<^verbatim>\<open>RedisTokenBucket.allow(cost)\<close>.\<close>

definition redis_allow ::
  "real \<Rightarrow> RedisTokenBucket \<Rightarrow> RedisStore \<Rightarrow> (error + bool) \<times> RedisTokenBucket \<times> RedisStore" where
  "redis_allow cost rb s =
     (let rb1 = rb\<lparr>r_totalRequests := r_totalRequests rb + 1\<rparr>
      in case runScript cost True (r_onRateLimit rb1 \<noteq> None) rb1 s of
           (Inl e, rb2, s1) \<Rightarrow> (Inl e, rb2, s1)
         | (Inr (allowed, tokens', lastRefill), rb2, s1) \<Rightarrow>
             if allowed = 1
             then (Inr True, rb2\<lparr>r_allowedRequests := r_allowedRequests rb2 + 1\<rparr>, s1)
             else let rb3 = rb2\<lparr>r_limitedRequests := r_limitedRequests rb2 + 1\<rparr>
                  in (case (r_onRateLimit rb3, lastRefill) of
                        (Some hook, Some l) \<Rightarrow>
                          (case hook (r_key rb3)
                                  \<lparr> st_tokens = toFixed4 tokens',
                                    st_capacity = r_capacity rb3,
                                    st_refillRate = r_refillRate rb3,
                                    st_lastRefill = l \<rparr> of
                             Throws \<Rightarrow> (Inl HookError, rb3, s1)
                           | Returns \<Rightarrow> (Inr False, rb3, s1))
                      | _ \<Rightarrow> (Inr False, rb3, s1)))"

text \<open>\<^verbatim>\<open>RedisTokenBucket.check(cost)\<close>.\<close>

definition redis_check ::
  "real \<Rightarrow> RedisTokenBucket \<Rightarrow> RedisStore \<Rightarrow> (error + bool) \<times> RedisTokenBucket \<times> RedisStore" where
  "redis_check cost rb s =
     (case runScript cost False False rb s of
        (Inl e, rb1, s1) \<Rightarrow> (Inl e, rb1, s1)
      | (Inr (allowed, _), rb1, s1) \<Rightarrow> (Inr (allowed = 1), rb1, s1))"

subsection \<open>A local bucket and a remote bucket side by side\<close>

text \<open>
  To compare the two forms: the remote bucket configured like the local bucket \<open>b\<close>
  (same capacity, rate, clock and counters, no hook) under the key \<open>key\<close>.
\<close>

definition mirror :: "string \<Rightarrow> real option \<Rightarrow> TokenBucket \<Rightarrow> RedisTokenBucket" where
  "mirror key ttl b =
     \<lparr> r_capacity = capacity b, r_refillRate = refillRate b, r_getTime = getTime b,
       r_clockReads = clockReads b, r_key = key, r_ttlSeconds = ttl, r_onRateLimit = None,
       r_totalRequests = totalRequests b, r_allowedRequests = allowedRequests b,
       r_limitedRequests = limitedRequests b \<rparr>"

text \<open>The store in which the hash of \<open>key\<close> holds the state of \<open>b\<close>.\<close>

definition holding :: "string \<Rightarrow> TokenBucket \<Rightarrow> RedisStore \<Rightarrow> RedisStore" where
  "holding key b s =
     s\<lparr>hashes := (hashes s)
          (key := (hashes s key)(''tokens'' \<mapsto> tokens b,
                                 ''lastRefill'' \<mapsto> lastRefillTimestamp b))\<rparr>"

text \<open>The effect of the script's \<^verbatim>\<open>EXPIRE\<close> for the \<^verbatim>\<open>ttlSeconds\<close> of the bucket.\<close>

definition expiring :: "string \<Rightarrow> real option \<Rightarrow> RedisStore \<Rightarrow> RedisStore" where
  "expiring key ttl s =
     (case ttl of
        None \<Rightarrow> s
      | Some t \<Rightarrow> if t > 0 then s\<lparr>expires := (expires s)(key \<mapsto> t)\<rparr> else s)"

section \<open>The keyed registry\<close>

text \<open>
  The value type of the \<^verbatim>\<open>buckets\<close> map and the fields of class
  \<^verbatim>\<open>TokenBucketManager\<close>. The map holds the bucket objects themselves: a method that
  mutates the bucket it resolved writes the new object back under the key. The factory
  is a caller's closure: \<open>createBucket m key n\<close> is what its \<open>n\<close>-th call returns or
  throws when given \<open>key\<close>, and \<open>created m\<close> counts its calls.
\<close>

record Entry =
  bucket :: TokenBucket
  lastAccess :: real

record TokenBucketManager =
  buckets :: "string \<rightharpoonup> Entry"
  createBucket :: "string \<Rightarrow> nat \<Rightarrow> error + TokenBucket"
  created :: nat
  ttlMs :: "real option"
  mgr_onRateLimit :: "(string \<Rightarrow> TokenBucketState \<Rightarrow> outcome) option"

text \<open>\<^verbatim>\<open>new TokenBucketManager(options)\<close>: an empty map.\<close>

definition TokenBucketManager_new ::
  "(string \<Rightarrow> nat \<Rightarrow> error + TokenBucket) \<Rightarrow> real option
     \<Rightarrow> (string \<Rightarrow> TokenBucketState \<Rightarrow> outcome) option \<Rightarrow> TokenBucketManager" where
  "TokenBucketManager_new factory ttl hook =
     \<lparr> buckets = Map.empty, createBucket = factory, created = 0, ttlMs = ttl,
       mgr_onRateLimit = hook \<rparr>"

text \<open>
  \<^verbatim>\<open>private get(key)\<close>. The registry's clock is \<^verbatim>\<open>Date.now()\<close>, read once; \<open>now\<close> is
  that reading.
\<close>

definition mgr_get ::
  "string \<Rightarrow> real \<Rightarrow> TokenBucketManager \<Rightarrow> (error + TokenBucket) \<times> TokenBucketManager" where
  "mgr_get key now m =
     (let m1 = (case (buckets m key, ttlMs m) of
                  (Some entry, Some ttl) \<Rightarrow>
                    if now - lastAccess entry > ttl
                    then m\<lparr>buckets := (buckets m)(key := None)\<rparr>
                    else m
                | _ \<Rightarrow> m)
      in case buckets m1 key of
           None \<Rightarrow>
             (let m2 = m1\<lparr>created := Suc (created m1)\<rparr>
              in case createBucket m1 key (created m1) of
                   Inl e \<Rightarrow> (Inl e, m2)
                 | Inr fresh \<Rightarrow>
                     (Inr fresh,
                      m2\<lparr>buckets := (buckets m2)(key \<mapsto> \<lparr>bucket = fresh, lastAccess = now\<rparr>)\<rparr>))
         | Some current \<Rightarrow>
             (Inr (bucket current),
              m1\<lparr>buckets := (buckets m1)(key \<mapsto> current\<lparr>lastAccess := now\<rparr>)\<rparr>))"

text \<open>The write-back of a bucket that a method has mutated through its reference.\<close>

definition mutated :: "string \<Rightarrow> TokenBucket \<Rightarrow> TokenBucketManager \<Rightarrow> TokenBucketManager" where
  "mutated key b m =
     m\<lparr>buckets := (buckets m)(key := map_option (\<lambda>entry. entry\<lparr>bucket := b\<rparr>) (buckets m key))\<rparr>"

text \<open>\<^verbatim>\<open>TokenBucketManager.allow(key, cost)\<close>.\<close>

definition mgr_allow ::
  "string \<Rightarrow> real \<Rightarrow> real \<Rightarrow> TokenBucketManager \<Rightarrow> (error + bool) \<times> TokenBucketManager" where
  "mgr_allow key cost now m =
     (case mgr_get key now m of
        (Inl e, m1) \<Rightarrow> (Inl e, m1)
      | (Inr b, m1) \<Rightarrow>
          (case allow cost b of
             (Inl e, b1) \<Rightarrow> (Inl e, mutated key b1 m1)
           | (Inr allowed, b1) \<Rightarrow>
               (case (allowed, mgr_onRateLimit m1) of
                  (False, Some hook) \<Rightarrow>
                    (let (state, b2) = getState b1
                     in case hook key state of
                          Throws \<Rightarrow> (Inl HookError, mutated key b2 m1)
                        | Returns \<Rightarrow> (Inr allowed, mutated key b2 m1))
                | _ \<Rightarrow> (Inr allowed, mutated key b1 m1))))"

text \<open>\<^verbatim>\<open>TokenBucketManager.cleanup()\<close>; \<open>now\<close> is its reading of \<^verbatim>\<open>Date.now()\<close>.\<close>

definition cleanup :: "real \<Rightarrow> TokenBucketManager \<Rightarrow> TokenBucketManager" where
  "cleanup now m =
     (case ttlMs m of
        None \<Rightarrow> m
      | Some ttl \<Rightarrow>
          m\<lparr>buckets := (\<lambda>key. case buckets m key of
                                 None \<Rightarrow> None
                               | Some entry \<Rightarrow>
                                   if now - lastAccess entry > ttl then None else Some entry)\<rparr>)"

section \<open>Concrete inputs\<close>

text \<open>A clock that stands still, and a clock that gives the listed readings and then stays.\<close>

definition fixedClock :: "real \<Rightarrow> nat \<Rightarrow> real" where
  "fixedClock t n = t"

definition listClock :: "real list \<Rightarrow> real \<Rightarrow> nat \<Rightarrow> real" where
  "listClock ts t n = (if n < length ts then ts ! n else t)"

text \<open>\<^verbatim>\<open>{ capacity: 10, refillRate: 5, currentTime }\<close>, the options of scenarios A and B.\<close>

definition scenarioOptions :: "(nat \<Rightarrow> real) \<Rightarrow> TokenBucketOptions" where
  "scenarioOptions clock =
     \<lparr> opt_capacity = 10, opt_refillRate = 5, opt_currentTime = Some clock,
       opt_onRateLimit = None \<rparr>"

text \<open>The bucket that the constructor builds from these options when \<^verbatim>\<open>Date.now()\<close> is \<open>wall\<close>.\<close>

definition scenarioBucket :: "(nat \<Rightarrow> real) \<Rightarrow> real \<Rightarrow> TokenBucket" where
  "scenarioBucket clock wall =
     \<lparr> capacity = 10, refillRate = 5, tokens = 10, lastRefillTimestamp = wall,
       getTime = clock, clockReads = 0, onRateLimit = None,
       totalRequests = 0, allowedRequests = 0, limitedRequests = 0 \<rparr>"

text \<open>Capacity 1, one token per second, no token left at \<open>t = 0\<close>.\<close>

definition drainedBucket :: "(nat \<Rightarrow> real) \<Rightarrow> TokenBucket" where
  "drainedBucket clock =
     \<lparr> capacity = 1, refillRate = 1, tokens = 0, lastRefillTimestamp = 0,
       getTime = clock, clockReads = 0, onRateLimit = None,
       totalRequests = 0, allowedRequests = 0, limitedRequests = 0 \<rparr>"

text \<open>A bucket with no token left at \<open>t = 0\<close>, of any capacity and rate.\<close>

definition drainedAt :: "real \<Rightarrow> real \<Rightarrow> (nat \<Rightarrow> real) \<Rightarrow> TokenBucket" where
  "drainedAt cap rate clock =
     \<lparr> capacity = cap, refillRate = rate, tokens = 0, lastRefillTimestamp = 0,
       getTime = clock, clockReads = 0, onRateLimit = None,
       totalRequests = 0, allowedRequests = 0, limitedRequests = 0 \<rparr>"

text \<open>Two hooks: one that throws on every call, one that never does.\<close>

definition throwingHook :: "TokenBucketState \<Rightarrow> outcome" where
  "throwingHook state = Throws"

definition quietHook :: "TokenBucketState \<Rightarrow> outcome" where
  "quietHook state = Returns"

definition throwingKeyHook :: "string \<Rightarrow> TokenBucketState \<Rightarrow> outcome" where
  "throwingKeyHook key state = Throws"

definition quietKeyHook :: "string \<Rightarrow> TokenBucketState \<Rightarrow> outcome" where
  "quietKeyHook key state = Returns"

text \<open>
  A factory \<^verbatim>\<open>() => new TokenBucket({ capacity: 10, refillRate: 5 })\<close>, called first when
  \<^verbatim>\<open>Date.now()\<close> is 0 and then when it is 2000.
\<close>

definition scenarioFactory :: "string \<Rightarrow> nat \<Rightarrow> error + TokenBucket" where
  "scenarioFactory key n =
     TokenBucket_new
       \<lparr> opt_capacity = 10, opt_refillRate = 5, opt_currentTime = None, opt_onRateLimit = None \<rparr>
       (fixedClock (if n = 0 then 0 else 2000))"

text \<open>A registry with \<^verbatim>\<open>ttlMs: 1000\<close> over that factory, new and after key "a" was resolved at 0.\<close>

definition scenarioManager :: TokenBucketManager where
  "scenarioManager = TokenBucketManager_new scenarioFactory (Some 1000) None"

definition resolvedManager :: TokenBucketManager where
  "resolvedManager = snd (mgr_get ''a'' 0 scenarioManager)"

text \<open>
  The options of scenario A with a hook that throws, the bucket the constructor builds
  from them when \<^verbatim>\<open>Date.now()\<close> is 0, and a registry whose own hook throws.
\<close>

definition throwingOptions :: TokenBucketOptions where
  "throwingOptions =
     \<lparr> opt_capacity = 10, opt_refillRate = 5, opt_currentTime = Some (fixedClock 0),
       opt_onRateLimit = Some throwingHook \<rparr>"

definition throwingBucket :: TokenBucket where
  "throwingBucket = (scenarioBucket (fixedClock 0) 0)\<lparr>onRateLimit := Some throwingHook\<rparr>"

definition throwingManager :: TokenBucketManager where
  "throwingManager = TokenBucketManager_new scenarioFactory None (Some throwingKeyHook)"

text \<open>An empty store.\<close>

definition emptyStore :: RedisStore where
  "emptyStore = \<lparr> hashes = (\<lambda>key. Map.empty), expires = Map.empty \<rparr>"

section \<open>Facts about the local bucket\<close>

lemmas concrete_defs = scenarioOptions_def scenarioBucket_def fixedClock_def listClock_def
  TokenBucket_new_def drainedBucket_def

lemmas method_defs = allow_def check_def timeToRefill_def getState_def reset_def refill_def
  readClock_def Let_def

subsection \<open>What a refill changes\<close>

lemma refill_frame:
  "capacity (refill b) = capacity b"
  "refillRate (refill b) = refillRate b"
  "getTime (refill b) = getTime b"
  "clockReads (refill b) = Suc (clockReads b)"
  "onRateLimit (refill b) = onRateLimit b"
  "totalRequests (refill b) = totalRequests b"
  "allowedRequests (refill b) = allowedRequests b"
  "limitedRequests (refill b) = limitedRequests b"
  by (simp_all add: refill_def readClock_def Let_def)

lemma refill_tokens:
  "tokens (refill b) =
     (if getTime b (clockReads b) > lastRefillTimestamp b
      then min (tokens b + (getTime b (clockReads b) - lastRefillTimestamp b) / 1000 * refillRate b)
               (capacity b)
      else tokens b)"
  by (simp add: refill_def readClock_def Let_def)

lemma refill_lastRefill:
  "lastRefillTimestamp (refill b) =
     (if getTime b (clockReads b) > lastRefillTimestamp b
      then getTime b (clockReads b) else lastRefillTimestamp b)"
  by (simp add: refill_def readClock_def Let_def)

lemma refill_counters:
  "refill (b\<lparr>totalRequests := n\<rparr>) = (refill b)\<lparr>totalRequests := n\<rparr>"
  "refill (b\<lparr>allowedRequests := n\<rparr>) = (refill b)\<lparr>allowedRequests := n\<rparr>"
  "refill (b\<lparr>limitedRequests := n\<rparr>) = (refill b)\<lparr>limitedRequests := n\<rparr>"
  "refill (b\<lparr>onRateLimit := h\<rparr>) = (refill b)\<lparr>onRateLimit := h\<rparr>"
  by (simp_all add: refill_def readClock_def Let_def)

lemma bounded_refill: "bounded b \<Longrightarrow> bounded (refill b)"
  unfolding bounded_def by (auto simp: refill_frame refill_tokens)

subsection \<open>What the public methods change\<close>

lemma readers_keep_metrics:
  "getMetrics (snd (check cost b)) = getMetrics b"
  "getMetrics (snd (timeToRefill cost b)) = getMetrics b"
  "getMetrics (snd (getState b)) = getMetrics b"
  by (simp_all add: check_def timeToRefill_def getState_def getMetrics_def Let_def refill_frame)

lemma allow_counters:
  "totalRequests (snd (allow cost b)) = totalRequests b + 1"
  "tokens (refill b) \<ge> cost \<Longrightarrow> allowedRequests (snd (allow cost b)) = allowedRequests b + 1"
  "tokens (refill b) \<ge> cost \<Longrightarrow> limitedRequests (snd (allow cost b)) = limitedRequests b"
  "\<not> tokens (refill b) \<ge> cost \<Longrightarrow> allowedRequests (snd (allow cost b)) = allowedRequests b"
  "\<not> tokens (refill b) \<ge> cost \<Longrightarrow> limitedRequests (snd (allow cost b)) = limitedRequests b + 1"
  by (simp_all add: allow_def getState_def Let_def refill_frame refill_counters
               split: option.splits outcome.splits)

lemma allow_tokens:
  "tokens (snd (allow cost b)) =
     (if tokens (refill b) \<ge> cost then tokens (refill b) - cost
      else if onRateLimit b = None then tokens (refill b)
      else tokens (refill (refill b)))"
  by (simp add: allow_def getState_def Let_def refill_frame refill_counters
           split: option.splits outcome.splits)

lemma allow_frame:
  "capacity (snd (allow cost b)) = capacity b"
  "refillRate (snd (allow cost b)) = refillRate b"
  by (simp_all add: allow_def getState_def Let_def refill_frame refill_counters
               split: option.splits outcome.splits)

lemma bounded_allow: "bounded b \<Longrightarrow> 0 \<le> cost \<Longrightarrow> bounded (snd (allow cost b))"
  using bounded_refill[of b] bounded_refill[of "refill b"]
  by (auto simp: bounded_def allow_tokens allow_frame refill_frame)

lemma bounded_perform: "bounded b \<Longrightarrow> call_cost_ok c \<Longrightarrow> bounded (perform c b)"
proof (cases c)
  case (Allow cost)
  assume "bounded b" "call_cost_ok c"
  with Allow show ?thesis by (simp add: bounded_allow)
next
  case (Check cost)
  assume "bounded b"
  with Check show ?thesis by (simp add: check_def Let_def bounded_refill)
next
  case (TimeToRefill cost)
  assume "bounded b"
  with TimeToRefill show ?thesis by (simp add: timeToRefill_def Let_def bounded_refill)
next
  case GetState
  assume "bounded b"
  with GetState show ?thesis by (simp add: getState_def Let_def bounded_refill)
next
  case Reset
  assume "bounded b"
  with Reset show ?thesis by (simp add: reset_def readClock_def Let_def bounded_def)
qed

lemma perform_capacity: "capacity (perform c b) = capacity b"
  by (cases c)
     (simp_all add: allow_frame check_def timeToRefill_def getState_def reset_def readClock_def
                    Let_def refill_frame)

lemma run_capacity: "capacity (run cs b) = capacity b"
  by (induction cs arbitrary: b) (simp_all add: perform_capacity)

lemma bounded_run: "bounded b \<Longrightarrow> list_all call_cost_ok cs \<Longrightarrow> bounded (run cs b)"
  by (induction cs arbitrary: b) (simp_all add: bounded_perform)

lemma bounded_new: "TokenBucket_new options dateNow = Inr b \<Longrightarrow> bounded b"
  by (auto simp: TokenBucket_new_def bounded_def split: if_splits)

lemma toFixed4_mono: "0 \<le> x \<Longrightarrow> x \<le> y \<Longrightarrow> toFixed4 x \<le> toFixed4 y"
  by (simp add: toFixed4_def divide_right_mono floor_mono)

lemma toFixed4_nonneg: "0 \<le> x \<Longrightarrow> 0 \<le> toFixed4 x"
  by (simp add: toFixed4_def)

subsection \<open>Refill is linear in the time elapsed\<close>

lemma refill_linear:
  assumes "getTime b (clockReads b) = lastRefillTimestamp b + d * 1000"
    and "0 \<le> d" and "tokens b \<le> capacity b"
  shows "tokens (refill b) = min (capacity b) (tokens b + d * refillRate b)"
  using assms by (auto simp: refill_tokens min_def)

text \<open>
  Scenario B from the bucket as the constructor leaves it: \<^verbatim>\<open>check(10)\<close> is false whenever
  \<^verbatim>\<open>Date.now()\<close> was positive at construction, and true had the stamp been the clock's 0.
\<close>

lemma scenario_B_fails_after_epoch:
  "0 < wall \<Longrightarrow>
     fst (check 10 (snd (allow 10 (scenarioBucket (listClock [0] 2000) wall)))) = False"
  by (simp add: concrete_defs method_defs)

lemma scenario_B_with_clock_stamp:
  "fst (check 10 (snd (allow 10 (scenarioBucket (listClock [0] 2000) 0)))) = True"
  by (simp add: concrete_defs method_defs)

subsection \<open>A denied call and its hook\<close>

lemma getState_counters:
  "fst (getState (b\<lparr>totalRequests := n\<rparr>)) = fst (getState b)"
  "fst (getState (b\<lparr>limitedRequests := n\<rparr>)) = fst (getState b)"
  "snd (getState (b\<lparr>totalRequests := n\<rparr>)) = (snd (getState b))\<lparr>totalRequests := n\<rparr>"
  "snd (getState (b\<lparr>limitedRequests := n\<rparr>)) = (snd (getState b))\<lparr>limitedRequests := n\<rparr>"
  "snd (getState b) = refill b"
  by (simp_all add: getState_def Let_def refill_counters)

lemma allow_denied_with_hook:
  assumes "onRateLimit b = Some hook" and "\<not> cost \<le> tokens (refill b)"
  shows "allow cost b =
           ((case hook (fst (getState (refill b))) of Throws \<Rightarrow> Inl HookError | Returns \<Rightarrow> Inr False),
            (refill (refill b))\<lparr>totalRequests := totalRequests b + 1,
                                limitedRequests := limitedRequests b + 1\<rparr>)"
  using assms
  by (simp add: allow_def Let_def refill_counters refill_frame getState_counters
        split_beta split: outcome.splits)

subsection \<open>The loop of \<^verbatim>\<open>acquire\<close>, pass by pass\<close>

lemma allow_result: "fst (allow cost b) \<in> {Inr True, Inr False, Inl HookError}"
  by (simp add: allow_def Let_def split_beta split: option.splits outcome.splits)

lemma allow_not_timeout: "allow cost b \<noteq> (Inl TimeoutError, b')"
  using allow_result[of cost b] by (cases "allow cost b") auto

lemma pass_timedOut:
  "timedOut cost timeoutMs start b \<Longrightarrow>
     acquire_loop cost timeoutMs start b = Some (Inl TimeoutError, timedOutBucket cost b)"
  by (subst acquire_loop.simps)
     (auto simp: timedOut_def timedOutBucket_def Let_def split_beta split: option.splits)

lemma pass_retried:
  "retried cost timeoutMs start b = Some b' \<Longrightarrow>
     acquire_loop cost timeoutMs start b = acquire_loop cost timeoutMs start b'"
  by (subst acquire_loop.simps)
     (auto simp: retried_def Let_def split_beta split: option.splits if_splits sum.splits)

lemma pass_returns:
  "\<not> timedOut cost timeoutMs start b \<Longrightarrow> retried cost timeoutMs start b = None \<Longrightarrow>
     acquire_loop cost timeoutMs start b
       = Some (case fst (allow cost b) of Inl e \<Rightarrow> Inl e | Inr ok \<Rightarrow> Inr (), snd (allow cost b))
     \<and> fst (allow cost b) \<noteq> Inr False"
  by (subst acquire_loop.simps)
     (auto simp: retried_def timedOut_def Let_def split_beta split: option.splits if_splits sum.splits)

lemma passes_timeout_returns:
  "passes n cost timeoutMs start b = Some bn \<Longrightarrow> timedOut cost timeoutMs start bn \<Longrightarrow>
     acquire_loop cost timeoutMs start b = Some (Inl TimeoutError, timedOutBucket cost bn)"
proof (induction n arbitrary: b)
  case 0
  then show ?case by (simp add: pass_timedOut)
next
  case (Suc n)
  then obtain b' where r: "retried cost timeoutMs start b = Some b'"
    and p: "passes n cost timeoutMs start b' = Some bn"
    by (auto split: option.splits)
  from Suc.IH[OF p Suc.prems(2)] pass_retried[OF r] show ?case by simp
qed

lemma timeout_has_pass:
  "acquire_loop cost timeoutMs start b = Some y \<Longrightarrow>
     \<forall>b'. y = (Inl TimeoutError, b') \<longrightarrow>
       (\<exists>n bn. passes n cost timeoutMs start b = Some bn \<and> timedOut cost timeoutMs start bn)"
proof (induction rule: acquire_loop.raw_induct[rotated, consumes 1])
  case (1 loop cost timeoutMs start b y)
  show ?case
  proof (cases "timedOut cost timeoutMs start b")
    case True
    then have "passes 0 cost timeoutMs start b = Some b \<and> timedOut cost timeoutMs start b"
      by simp
    then show ?thesis by blast
  next
    case False
    show ?thesis
    proof (cases "retried cost timeoutMs start b")
      case None
      with False 1(2) have "fst y \<noteq> Inl TimeoutError"
        using allow_result[of cost b]
        by (auto simp: retried_def timedOut_def Let_def split_beta
            split: option.splits if_splits sum.splits)
      then show ?thesis by auto
    next
      case (Some b')
      with 1(2) have "loop cost timeoutMs start b' = Some y"
        by (auto simp: retried_def Let_def split_beta split: option.splits if_splits sum.splits)
      from 1(1)[OF this]
      have ih: "\<forall>b''. y = (Inl TimeoutError, b'') \<longrightarrow>
          (\<exists>n bn. passes n cost timeoutMs start b' = Some bn \<and> timedOut cost timeoutMs start bn)" .
      show ?thesis
      proof (intro allI impI)
        fix b''
        assume "y = (Inl TimeoutError, b'')"
        with ih obtain n bn where p: "passes n cost timeoutMs start b' = Some bn"
          and t: "timedOut cost timeoutMs start bn"
          by blast
        from p Some have "passes (Suc n) cost timeoutMs start b = Some bn"
          by simp
        with t show "\<exists>n bn. passes n cost timeoutMs start b = Some bn \<and> timedOut cost timeoutMs start bn"
          by blast
      qed
    qed
  qed
qed

lemma acquire_entry:
  "acquire cost timeoutMs b =
     (case loopEntry cost b of
        None \<Rightarrow> Some (Inl ShortageError, snd (check cost (snd (readClock b))))
      | Some b1 \<Rightarrow> acquire_loop cost timeoutMs (getTime b (clockReads b)) b1)"
  by (simp add: acquire_def loopEntry_def readClock_def Let_def split_beta)

section \<open>Facts about the remote bucket\<close>

lemma holding_again: "holding key b' (holding key b s) = holding key b' s"
  by (simp add: holding_def fun_eq_iff)

lemma script_on_held:
  "REDIS_TOKEN_BUCKET_LUA key (capacity b) (refillRate b) cost (getTime b (clockReads b))
      consume returnState ttlSeconds (holding key b s)
   = Inr ((if cost \<le> tokens (refill b) then 1 else 0,
           if cost \<le> tokens (refill b) \<and> consume then tokens (refill b) - cost else tokens (refill b),
           if returnState then Some (lastRefillTimestamp (refill b)) else None),
          expiring key (Some ttlSeconds)
            (holding key ((refill b)\<lparr>tokens :=
                if cost \<le> tokens (refill b) \<and> consume then tokens (refill b) - cost
                else tokens (refill b)\<rparr>) s))"
  by (simp add: REDIS_TOKEN_BUCKET_LUA_def holding_def expiring_def Let_def refill_tokens
        refill_lastRefill min_def fun_eq_iff)

lemma mirror_simps:
  "r_capacity (mirror key ttl b) = capacity b"
  "r_refillRate (mirror key ttl b) = refillRate b"
  "r_getTime (mirror key ttl b) = getTime b"
  "r_clockReads (mirror key ttl b) = clockReads b"
  "r_key (mirror key ttl b) = key"
  "r_ttlSeconds (mirror key ttl b) = ttl"
  "r_onRateLimit (mirror key ttl b) = None"
  by (simp_all add: mirror_def)

lemma expiring_default:
  "expiring key (Some (case ttl of Some t \<Rightarrow> t | None \<Rightarrow> 0)) s = expiring key ttl s"
  by (simp add: expiring_def split: option.splits)

lemma holding_tokens_only:
  "lastRefillTimestamp b' = lastRefillTimestamp b \<Longrightarrow> tokens b' = tokens b
     \<Longrightarrow> holding key b' s = holding key b s"
  by (simp add: holding_def)

lemma runScript_on_held:
  "runScript cost consume returnState (mirror key ttl b) (holding key b s)
   = (Inr (if cost \<le> tokens (refill b) then 1 else 0,
           if cost \<le> tokens (refill b) \<and> consume then tokens (refill b) - cost else tokens (refill b),
           if returnState then Some (lastRefillTimestamp (refill b)) else None),
      (mirror key ttl b)\<lparr>r_clockReads := Suc (clockReads b)\<rparr>,
      expiring key ttl
        (holding key ((refill b)\<lparr>tokens :=
            if cost \<le> tokens (refill b) \<and> consume then tokens (refill b) - cost
            else tokens (refill b)\<rparr>) s))"
  unfolding runScript_def Let_def
  by (simp add: mirror_simps script_on_held expiring_default cong: if_cong)

section \<open>Facts about the registry\<close>

lemma mgr_get_within_ttl:
  assumes "buckets m key = Some entry" and "ttlMs m = Some ttl" and "now - lastAccess entry \<le> ttl"
  shows "mgr_get key now m
           = (Inr (bucket entry), m\<lparr>buckets := (buckets m)(key \<mapsto> entry\<lparr>lastAccess := now\<rparr>)\<rparr>)"
  using assms by (simp add: mgr_get_def Let_def)

lemma mgr_get_past_ttl:
  assumes "buckets m key = Some entry" and "ttlMs m = Some ttl" and "now - lastAccess entry > ttl"
    and "createBucket m key (created m) = Inr fresh"
  shows "mgr_get key now m
           = (Inr fresh, m\<lparr>buckets := (buckets m)(key \<mapsto> \<lparr>bucket = fresh, lastAccess = now\<rparr>),
                            created := Suc (created m)\<rparr>)"
  using assms by (simp add: mgr_get_def Let_def)

lemma resolvedManager_eq:
  "resolvedManager =
     \<lparr> buckets = [''a'' \<mapsto> \<lparr>bucket = scenarioBucket (fixedClock 0) 0\<lparr>getTime := (\<lambda>n. 0)\<rparr>, lastAccess = 0\<rparr>],
       createBucket = scenarioFactory, created = 1, ttlMs = Some 1000, mgr_onRateLimit = None \<rparr>"
  by (simp add: resolvedManager_def scenarioManager_def TokenBucketManager_new_def mgr_get_def
        scenarioFactory_def concrete_defs Let_def)

lemma cleanup_500: "cleanup 500 resolvedManager = resolvedManager"
  by (simp add: resolvedManager_eq cleanup_def fun_eq_iff)

lemma cleanup_1500: "buckets (cleanup 1500 resolvedManager) ''a'' = None"
  by (simp add: resolvedManager_eq cleanup_def)

lemma resolve_2000:
  "fst (mgr_get ''a'' 2000 resolvedManager) = scenarioFactory ''a'' 1"
  "created (snd (mgr_get ''a'' 2000 resolvedManager)) = 2"
  "fst (mgr_get ''a'' 2000 resolvedManager) \<noteq> fst (mgr_get ''a'' 0 scenarioManager)"
  by (simp_all add: resolvedManager_eq mgr_get_def Let_def scenarioFactory_def concrete_defs
       scenarioManager_def TokenBucketManager_new_def)

lemma mgr_get_hook:
  "mgr_get key now (m\<lparr>mgr_onRateLimit := h\<rparr>)
     = (fst (mgr_get key now m), (snd (mgr_get key now m))\<lparr>mgr_onRateLimit := h\<rparr>)"
  by (simp add: mgr_get_def Let_def split: option.splits sum.splits)

lemma mgr_get_keeps_hook: "mgr_onRateLimit (snd (mgr_get key now m)) = mgr_onRateLimit m"
  by (simp add: mgr_get_def Let_def split: option.splits sum.splits)

lemma mutated_hook: "mutated key b (m\<lparr>mgr_onRateLimit := h\<rparr>) = (mutated key b m)\<lparr>mgr_onRateLimit := h\<rparr>"
  by (simp add: mutated_def)

section \<open>Facts about binary64 rounding\<close>













subsection \<open>The methods in doubles, case by case\<close>









subsection \<open>Two inputs on which rounding decides the millisecond\<close>





lemma exact_arithmetic_differs:
  "fst (timeToRefill 27 (drainedAt 100 750 (fixedClock 36))) = Ms 0"
  "fst (timeToRefill 1 (drainedAt 10 1 (fixedClock 59))) = Ms 941"
  by (simp_all add: drainedAt_def fixedClock_def method_defs)


section \<open>The claims\<close>

text \<open>
  C1, at the input where the code departs from it. Scenario B with an injected clock that
  reads 0 and then 2000, on a bucket constructed when \<^verbatim>\<open>Date.now()\<close> is 1700000000000:
  the constructor stamped \<^verbatim>\<open>lastRefillTimestamp\<close> with \<^verbatim>\<open>Date.now()\<close>, not with the
  injected clock, so no time has elapsed for \<^verbatim>\<open>refill\<close> at either reading, and after
  \<^verbatim>\<open>allow(10)\<close> the call \<^verbatim>\<open>check(10)\<close> returns false with no token refilled.
\<close>

theorem scenario_B_check_fails:
  "TokenBucket_new (scenarioOptions (listClock [0] 2000)) (fixedClock 1700000000000)
     = Inr (scenarioBucket (listClock [0] 2000) 1700000000000)
   \<and> fst (allow 10 (scenarioBucket (listClock [0] 2000) 1700000000000)) = Inr True
   \<and> fst (check 10 (snd (allow 10 (scenarioBucket (listClock [0] 2000) 1700000000000)))) = False
   \<and> tokens (snd (check 10 (snd (allow 10 (scenarioBucket (listClock [0] 2000) 1700000000000))))) = 0"
  by (simp add: concrete_defs method_defs)

text \<open>
  C2, as amended. For a bucket that the constructor built and every sequence of calls
  of \<^verbatim>\<open>allow\<close>, \<^verbatim>\<open>check\<close>, \<^verbatim>\<open>timeToRefill\<close>, \<^verbatim>\<open>getState\<close> and \<^verbatim>\<open>reset\<close> in which no
  \<^verbatim>\<open>allow\<close> has a negative cost (the costs of \<^verbatim>\<open>check\<close> and \<^verbatim>\<open>timeToRefill\<close> are
  arbitrary, and so is the clock), the bucket's token count lies between zero and its
  capacity after the sequence, hence after every call of it. The count that \<^verbatim>\<open>getState\<close>
  then reports, rounded to four decimals, lies between zero and the capacity rounded
  the same way.
\<close>

theorem tokens_within_capacity:
  assumes "TokenBucket_new options dateNow = Inr b" and "list_all call_cost_ok cs"
  shows "0 \<le> tokens (run cs b) \<and> tokens (run cs b) \<le> capacity (run cs b)
         \<and> capacity (run cs b) = opt_capacity options
         \<and> 0 \<le> st_tokens (fst (getState (run cs b)))
         \<and> st_tokens (fst (getState (run cs b))) \<le> toFixed4 (opt_capacity options)"
proof -
  have b: "bounded (run cs b)"
    using assms by (simp add: bounded_new bounded_run)
  have c: "capacity (run cs b) = opt_capacity options"
    using assms(1) by (auto simp: run_capacity TokenBucket_new_def split: if_splits)
  have r: "bounded (refill (run cs b))"
    using b by (rule bounded_refill)
  have s: "st_tokens (fst (getState (run cs b))) = toFixed4 (tokens (refill (run cs b)))"
    by (simp add: getState_def Let_def)
  have "tokens (refill (run cs b)) \<le> opt_capacity options"
    using r c by (simp add: bounded_def refill_frame)
  with r have "toFixed4 (tokens (refill (run cs b))) \<le> toFixed4 (opt_capacity options)"
    by (simp add: bounded_def toFixed4_mono)
  moreover have "0 \<le> toFixed4 (tokens (refill (run cs b)))"
    using r by (simp add: bounded_def toFixed4_nonneg)
  ultimately show ?thesis
    using b c s by (simp add: bounded_def)
qed

theorem tokens_within_capacity_witness:
  "TokenBucket_new (scenarioOptions (fixedClock 0)) (fixedClock 1700000000000)
     = Inr (scenarioBucket (fixedClock 0) 1700000000000)
   \<and> list_all call_cost_ok [Allow 10, Check (- 3), Allow 1, TimeToRefill 1, GetState, Reset, Allow 4]
   \<and> 0 \<le> tokens (run [Allow 10, Check (- 3), Allow 1, TimeToRefill 1, GetState, Reset, Allow 4]
                    (scenarioBucket (fixedClock 0) 1700000000000))
   \<and> tokens (run [Allow 10, Check (- 3), Allow 1, TimeToRefill 1, GetState, Reset, Allow 4]
                    (scenarioBucket (fixedClock 0) 1700000000000)) \<le> 10"
proof -
  have h1: "TokenBucket_new (scenarioOptions (fixedClock 0)) (fixedClock 1700000000000)
     = Inr (scenarioBucket (fixedClock 0) 1700000000000)"
    by (simp add: concrete_defs)
  have h2: "list_all call_cost_ok [Allow 10, Check (- 3), Allow 1, TimeToRefill 1, GetState, Reset, Allow 4]"
    by simp
  have h3: "opt_capacity (scenarioOptions (fixedClock 0)) = 10"
    by (simp add: scenarioOptions_def)
  from tokens_within_capacity[OF h1 h2] h1 h2 h3 show ?thesis
    by (simp add: run_capacity)
qed

text \<open>
  C2 as stated fails: on a fresh bucket of capacity 10, \<^verbatim>\<open>allow(-1)\<close> passes the test
  \<^verbatim>\<open>tokens >= cost\<close> and subtracts \<open>-1\<close>, which leaves 11 tokens.
\<close>

theorem tokens_exceed_capacity_counterexample:
  "TokenBucket_new (scenarioOptions (fixedClock 0)) (fixedClock 0)
     = Inr (scenarioBucket (fixedClock 0) 0)
   \<and> tokens (run [Allow (- 1)] (scenarioBucket (fixedClock 0) 0)) = 11
   \<and> capacity (run [Allow (- 1)] (scenarioBucket (fixedClock 0) 0)) = 10
   \<and> \<not> (tokens (run [Allow (- 1)] (scenarioBucket (fixedClock 0) 0))
          \<le> capacity (run [Allow (- 1)] (scenarioBucket (fixedClock 0) 0)))"
  by (simp add: concrete_defs method_defs)

text \<open>
  C3. From the same state, at the same clock reading and for the same cost, one run of
  the script with \<^verbatim>\<open>consume = 1\<close> on a key that holds the state of a local bucket
  returns the decision of the local \<^verbatim>\<open>allow\<close> and stores the tokens and the refill time
  that \<^verbatim>\<open>allow\<close> leaves in the bucket, and \<^verbatim>\<open>RedisTokenBucket.allow\<close> returns what the
  local \<^verbatim>\<open>allow\<close> returns and moves its counters alike. This is the step of \<^verbatim>\<open>allow\<close>
  before the hook: the local bucket has no hook, or the request is allowed. The same
  holds of \<^verbatim>\<open>check\<close> and the script with \<^verbatim>\<open>consume = 0\<close>, for every local bucket.
\<close>

theorem local_and_remote_agree:
  "(onRateLimit b = None \<or> cost \<le> tokens (refill b) \<longrightarrow>
      REDIS_TOKEN_BUCKET_LUA key (capacity b) (refillRate b) cost (getTime b (clockReads b))
          True returnState ttlSeconds (holding key b s)
        = Inr ((if fst (allow cost b) = Inr True then 1 else 0,
                tokens (snd (allow cost b)),
                if returnState then Some (lastRefillTimestamp (snd (allow cost b))) else None),
               expiring key (Some ttlSeconds) (holding key (snd (allow cost b)) s))
      \<and> redis_allow cost (mirror key ttl b) (holding key b s)
        = (fst (allow cost b), mirror key ttl (snd (allow cost b)),
           expiring key ttl (holding key (snd (allow cost b)) s)))
   \<and> REDIS_TOKEN_BUCKET_LUA key (capacity b) (refillRate b) cost (getTime b (clockReads b))
          False returnState ttlSeconds (holding key b s)
        = Inr ((if fst (check cost b) then 1 else 0,
                tokens (snd (check cost b)),
                if returnState then Some (lastRefillTimestamp (snd (check cost b))) else None),
               expiring key (Some ttlSeconds) (holding key (snd (check cost b)) s))
   \<and> redis_check cost (mirror key ttl b) (holding key b s)
        = (Inr (fst (check cost b)), mirror key ttl (snd (check cost b)),
           expiring key ttl (holding key (snd (check cost b)) s))"
proof -
  have hold: "holding key (x\<lparr>tokens := t\<rparr>) s = holding key (y\<lparr>tokens := t\<rparr>) s"
    if "lastRefillTimestamp x = lastRefillTimestamp y" for x y t
    using that by (simp add: holding_def)
  have a: "allow cost b =
      (if cost \<le> tokens (refill b)
       then (Inr True, (refill b)\<lparr>tokens := tokens (refill b) - cost,
                                  totalRequests := totalRequests b + 1,
                                  allowedRequests := allowedRequests b + 1\<rparr>)
       else (Inr False, (refill b)\<lparr>totalRequests := totalRequests b + 1,
                                   limitedRequests := limitedRequests b + 1\<rparr>))"
    if "onRateLimit b = None \<or> cost \<le> tokens (refill b)"
    using that by (auto simp: allow_def Let_def refill_counters refill_frame)
  have c: "check cost b = (cost \<le> tokens (refill b), refill b)"
    by (simp add: check_def Let_def)
  have script_allow: "REDIS_TOKEN_BUCKET_LUA key (capacity b) (refillRate b) cost (getTime b (clockReads b))
          True returnState ttlSeconds (holding key b s)
        = Inr ((if fst (allow cost b) = Inr True then 1 else 0,
                tokens (snd (allow cost b)),
                if returnState then Some (lastRefillTimestamp (snd (allow cost b))) else None),
               expiring key (Some ttlSeconds) (holding key (snd (allow cost b)) s))"
    if "onRateLimit b = None \<or> cost \<le> tokens (refill b)"
    unfolding script_on_held by (simp add: a[OF that] holding_def)
  have class_allow: "redis_allow cost (mirror key ttl b) (holding key b s)
        = (fst (allow cost b), mirror key ttl (snd (allow cost b)),
           expiring key ttl (holding key (snd (allow cost b)) s))"
    if "onRateLimit b = None \<or> cost \<le> tokens (refill b)"
  proof -
    have m: "(mirror key ttl b)\<lparr>r_totalRequests := r_totalRequests (mirror key ttl b) + 1\<rparr>
             = mirror key ttl (b\<lparr>totalRequests := totalRequests b + 1\<rparr>)"
      by (simp add: mirror_def)
    have h: "holding key b s = holding key (b\<lparr>totalRequests := totalRequests b + 1\<rparr>) s"
      by (simp add: holding_def)
    show ?thesis
      unfolding redis_allow_def Let_def m
      apply (subst h)
      apply (simp only: runScript_on_held mirror_simps)
      apply (simp add: a[OF that] refill_counters refill_frame mirror_def holding_def)
      done
  qed
  have script_check: "REDIS_TOKEN_BUCKET_LUA key (capacity b) (refillRate b) cost (getTime b (clockReads b))
          False returnState ttlSeconds (holding key b s)
        = Inr ((if fst (check cost b) then 1 else 0,
                tokens (snd (check cost b)),
                if returnState then Some (lastRefillTimestamp (snd (check cost b))) else None),
               expiring key (Some ttlSeconds) (holding key (snd (check cost b)) s))"
    unfolding script_on_held by (simp add: c holding_def)
  have class_check: "redis_check cost (mirror key ttl b) (holding key b s)
        = (Inr (fst (check cost b)), mirror key ttl (snd (check cost b)),
           expiring key ttl (holding key (snd (check cost b)) s))"
    unfolding redis_check_def
    apply (simp only: runScript_on_held)
    apply (simp add: c refill_frame mirror_def holding_def)
    done
  from script_allow class_allow script_check class_check show ?thesis by blast
qed

theorem local_and_remote_agree_witness:
  "onRateLimit (scenarioBucket (fixedClock 0) 0) = None
   \<and> fst (allow 10 (scenarioBucket (fixedClock 0) 0)) = Inr True
   \<and> fst (redis_allow 10 (mirror ''tb:a'' None (scenarioBucket (fixedClock 0) 0))
             (holding ''tb:a'' (scenarioBucket (fixedClock 0) 0) emptyStore)) = Inr True
   \<and> fst (redis_check 11 (mirror ''tb:a'' None (scenarioBucket (fixedClock 0) 0))
             (holding ''tb:a'' (scenarioBucket (fixedClock 0) 0) emptyStore)) = Inr False"
proof -
  have h: "onRateLimit (scenarioBucket (fixedClock 0) 0) = None"
    by (simp add: scenarioBucket_def)
  have a: "fst (allow 10 (scenarioBucket (fixedClock 0) 0)) = Inr True"
    by (simp add: concrete_defs method_defs)
  have c: "fst (check 11 (scenarioBucket (fixedClock 0) 0)) = False"
    by (simp add: concrete_defs method_defs)
  from local_and_remote_agree[where b = "scenarioBucket (fixedClock 0) 0" and key = "''tb:a''"
         and cost = 10 and returnState = False and ttlSeconds = 0 and s = emptyStore
         and ttl = None] h
  have "redis_allow 10 (mirror ''tb:a'' None (scenarioBucket (fixedClock 0) 0))
             (holding ''tb:a'' (scenarioBucket (fixedClock 0) 0) emptyStore)
        = (fst (allow 10 (scenarioBucket (fixedClock 0) 0)),
           mirror ''tb:a'' None (snd (allow 10 (scenarioBucket (fixedClock 0) 0))),
           expiring ''tb:a'' None (holding ''tb:a'' (snd (allow 10 (scenarioBucket (fixedClock 0) 0))) emptyStore))"
    by blast
  moreover
  from local_and_remote_agree[where b = "scenarioBucket (fixedClock 0) 0" and key = "''tb:a''"
         and cost = 11 and returnState = False and ttlSeconds = 0 and s = emptyStore
         and ttl = None]
  have "redis_check 11 (mirror ''tb:a'' None (scenarioBucket (fixedClock 0) 0))
             (holding ''tb:a'' (scenarioBucket (fixedClock 0) 0) emptyStore)
        = (Inr (fst (check 11 (scenarioBucket (fixedClock 0) 0))),
           mirror ''tb:a'' None (snd (check 11 (scenarioBucket (fixedClock 0) 0))),
           expiring ''tb:a'' None (holding ''tb:a'' (snd (check 11 (scenarioBucket (fixedClock 0) 0))) emptyStore))"
    by blast
  ultimately show ?thesis
    using h a c by simp
qed

text \<open>
  C4. On a key whose hash has no \<^verbatim>\<open>tokens\<close> field the script starts from
  \<^verbatim>\<open>tokens = capacity\<close> and \<^verbatim>\<open>lastRefill = now\<close>: for every cost up to the capacity it
  answers \<^verbatim>\<open>allowed = 1\<close>, stores the capacity less what was consumed together with
  \<^verbatim>\<open>now\<close>, and \<^verbatim>\<open>RedisTokenBucket.allow(cost)\<close> returns true.
\<close>

theorem never_seen_key_starts_full:
  assumes "hashes s key ''tokens'' = None" and "cost \<le> cap"
  shows "(\<exists>s'. REDIS_TOKEN_BUCKET_LUA key cap rate cost nowMs consume returnState ttlSeconds s
                = Inr ((1, if consume then cap - cost else cap,
                        if returnState then Some nowMs else None), s')
              \<and> hashes s' key ''tokens'' = Some (if consume then cap - cost else cap)
              \<and> hashes s' key ''lastRefill'' = Some nowMs)
         \<and> (r_key rb = key \<and> r_capacity rb = cap \<longrightarrow> fst (redis_allow cost rb s) = Inr True)"
proof -
  have script: "REDIS_TOKEN_BUCKET_LUA key cap rate cost nowMs consume returnState ttlSeconds s
      = Inr ((1, if consume then cap - cost else cap, if returnState then Some nowMs else None),
             (if ttlSeconds > 0 then (\<lambda>x. x\<lparr>expires := (expires x)(key \<mapsto> ttlSeconds)\<rparr>) else id)
               (s\<lparr>hashes := (hashes s)
                    (key := (hashes s key)(''tokens'' \<mapsto> (if consume then cap - cost else cap),
                                           ''lastRefill'' \<mapsto> nowMs))\<rparr>))"
    for rate nowMs consume returnState ttlSeconds
    using assms by (simp add: REDIS_TOKEN_BUCKET_LUA_def Let_def)
  have first: "\<exists>s'. REDIS_TOKEN_BUCKET_LUA key cap rate cost nowMs consume returnState ttlSeconds s
                = Inr ((1, if consume then cap - cost else cap,
                        if returnState then Some nowMs else None), s')
              \<and> hashes s' key ''tokens'' = Some (if consume then cap - cost else cap)
              \<and> hashes s' key ''lastRefill'' = Some nowMs"
    unfolding script by simp
  have second: "fst (redis_allow cost rb s) = Inr True" if "r_key rb = key" "r_capacity rb = cap"
    using that by (simp add: redis_allow_def runScript_def Let_def script)
  from first second show ?thesis by blast
qed

theorem never_seen_key_starts_full_witness:
  "hashes emptyStore ''tb:user'' ''tokens'' = None \<and> (10::real) \<le> 10
   \<and> fst (redis_allow 10 (mirror ''tb:user'' (Some 300) (scenarioBucket (fixedClock 0) 0)) emptyStore)
       = Inr True"
proof -
  have h1: "hashes emptyStore ''tb:user'' ''tokens'' = None"
    by (simp add: emptyStore_def)
  have h2: "(10::real) \<le> 10" by simp
  have k: "r_key (mirror ''tb:user'' (Some 300) (scenarioBucket (fixedClock 0) 0)) = ''tb:user''
           \<and> r_capacity (mirror ''tb:user'' (Some 300) (scenarioBucket (fixedClock 0) 0)) = 10"
    by (simp add: mirror_def scenarioBucket_def)
  from never_seen_key_starts_full[OF h1 h2, where rb = "mirror ''tb:user'' (Some 300) (scenarioBucket (fixedClock 0) 0)"
         and rate = 5 and nowMs = 0 and consume = True and returnState = False and ttlSeconds = 300] k h1 h2
  show ?thesis by blast
qed

text \<open>
  C5, as amended. When the hook throws on a denied \<^verbatim>\<open>allow\<close>, the call does not return
  false: it ends with the hook's error. The bucket is left as a denial leaves it: refilled,
  \<^verbatim>\<open>totalRequests\<close> and \<^verbatim>\<open>limited\<close> one higher, no token taken, every other field
  unchanged, which is the state the same call leaves when the hook returns. Likewise the
  registry's \<^verbatim>\<open>allow(key, cost)\<close> ends with the error of a throwing registry hook, after
  the resolved bucket has completed its denial, and leaves the registry as it would
  with a hook that returns.
\<close>

theorem hook_throw_propagates:
  "(onRateLimit b = Some hook \<and> \<not> cost \<le> tokens (refill b)
      \<and> hook (fst (getState (refill b))) = Throws \<longrightarrow>
        fst (allow cost b) = Inl HookError
        \<and> snd (allow cost b)
            = (refill (refill b))\<lparr>totalRequests := totalRequests b + 1,
                                  limitedRequests := limitedRequests b + 1\<rparr>
        \<and> snd (allow cost b)
            = (snd (allow cost (b\<lparr>onRateLimit := Some quietHook\<rparr>)))\<lparr>onRateLimit := Some hook\<rparr>)
   \<and> (mgr_onRateLimit m = Some keyHook \<and> mgr_get key now m = (Inr b, m1)
      \<and> allow cost b = (Inr False, b1) \<and> keyHook key (fst (getState b1)) = Throws \<longrightarrow>
        fst (mgr_allow key cost now m) = Inl HookError
        \<and> snd (mgr_allow key cost now m) = mutated key (refill b1) m1
        \<and> snd (mgr_allow key cost now m)
            = (snd (mgr_allow key cost now (m\<lparr>mgr_onRateLimit := Some quietKeyHook\<rparr>)))
                \<lparr>mgr_onRateLimit := Some keyHook\<rparr>)"
proof -
  have bucket_level: "fst (allow cost b) = Inl HookError
        \<and> snd (allow cost b)
            = (refill (refill b))\<lparr>totalRequests := totalRequests b + 1,
                                  limitedRequests := limitedRequests b + 1\<rparr>
        \<and> snd (allow cost b)
            = (snd (allow cost (b\<lparr>onRateLimit := Some quietHook\<rparr>)))\<lparr>onRateLimit := Some hook\<rparr>"
    if h: "onRateLimit b = Some hook" and d: "\<not> cost \<le> tokens (refill b)"
      and t: "hook (fst (getState (refill b))) = Throws"
  proof -
    have q: "allow cost (b\<lparr>onRateLimit := Some quietHook\<rparr>)
        = (Inr False, (refill (refill (b\<lparr>onRateLimit := Some quietHook\<rparr>)))
             \<lparr>totalRequests := totalRequests b + 1, limitedRequests := limitedRequests b + 1\<rparr>)"
      using d allow_denied_with_hook[of "b\<lparr>onRateLimit := Some quietHook\<rparr>" quietHook cost]
      by (simp add: refill_counters quietHook_def)
    have u: "(b\<lparr>onRateLimit := Some hook\<rparr>) = b"
      using h by simp
    have "onRateLimit (refill (refill b)) = Some hook"
      using h by (simp add: refill_frame)
    then have "x\<lparr>onRateLimit := Some hook\<rparr> = x"
      if "x = (refill (refill b))\<lparr>totalRequests := totalRequests b + 1,
                                    limitedRequests := limitedRequests b + 1\<rparr>" for x
      using that by (cases "refill (refill b)") simp
    then show ?thesis
      by (simp add: allow_denied_with_hook[OF h d] t q refill_counters)
  qed
  have registry_level: "fst (mgr_allow key cost now m) = Inl HookError
        \<and> snd (mgr_allow key cost now m) = mutated key (refill b1) m1
        \<and> snd (mgr_allow key cost now m)
            = (snd (mgr_allow key cost now (m\<lparr>mgr_onRateLimit := Some quietKeyHook\<rparr>)))
                \<lparr>mgr_onRateLimit := Some keyHook\<rparr>"
    if h: "mgr_onRateLimit m = Some keyHook" and g: "mgr_get key now m = (Inr b, m1)"
      and a: "allow cost b = (Inr False, b1)" and t: "keyHook key (fst (getState b1)) = Throws"
  proof -
    have h1: "mgr_onRateLimit m1 = Some keyHook"
      using mgr_get_keeps_hook[of key now m] g h by simp
    have thrown: "mgr_allow key cost now m = (Inl HookError, mutated key (refill b1) m1)"
      by (simp add: mgr_allow_def g a h1 t getState_counters split_beta)
    have quiet: "mgr_allow key cost now (m\<lparr>mgr_onRateLimit := Some quietKeyHook\<rparr>)
        = (Inr False, mutated key (refill b1) (m1\<lparr>mgr_onRateLimit := Some quietKeyHook\<rparr>))"
      by (simp add: mgr_allow_def mgr_get_hook g a quietKeyHook_def getState_counters split_beta)
    have "(mutated key (refill b1) m1)\<lparr>mgr_onRateLimit := Some keyHook\<rparr> = mutated key (refill b1) m1"
      using h1 by (cases m1) (simp add: mutated_def)
    then show ?thesis
      by (simp add: thrown quiet mutated_hook)
  qed
  from bucket_level registry_level show ?thesis by blast
qed

theorem hook_throw_propagates_witness:
  "onRateLimit (snd (allow 10 throwingBucket)) = Some throwingHook
   \<and> \<not> 1 \<le> tokens (refill (snd (allow 10 throwingBucket)))
   \<and> fst (allow 1 (snd (allow 10 throwingBucket))) = Inl HookError
   \<and> limitedRequests (snd (allow 1 (snd (allow 10 throwingBucket)))) = 1
   \<and> tokens (snd (allow 1 (snd (allow 10 throwingBucket)))) = 0
   \<and> mgr_onRateLimit throwingManager = Some throwingKeyHook
   \<and> fst (mgr_get ''a'' 0 throwingManager) = Inr (scenarioBucket (fixedClock 0) 0)
   \<and> fst (allow 11 (scenarioBucket (fixedClock 0) 0)) = Inr False
   \<and> fst (mgr_allow ''a'' 11 0 throwingManager) = Inl HookError"
proof -
  have h1: "onRateLimit (snd (allow 10 throwingBucket)) = Some throwingHook"
    by (simp add: throwingBucket_def concrete_defs method_defs)
  have h2: "\<not> 1 \<le> tokens (refill (snd (allow 10 throwingBucket)))"
    by (simp add: throwingBucket_def concrete_defs method_defs)
  have h3: "throwingHook (fst (getState (refill (snd (allow 10 throwingBucket))))) = Throws"
    by (simp add: throwingHook_def)
  have g1: "mgr_onRateLimit throwingManager = Some throwingKeyHook"
    by (simp add: throwingManager_def TokenBucketManager_new_def)
  have g2: "mgr_get ''a'' 0 throwingManager
              = (Inr (scenarioBucket (fixedClock 0) 0), snd (mgr_get ''a'' 0 throwingManager))"
    by (simp add: throwingManager_def TokenBucketManager_new_def mgr_get_def Let_def
          scenarioFactory_def concrete_defs fun_eq_iff)
  have g3: "allow 11 (scenarioBucket (fixedClock 0) 0)
              = (Inr False, snd (allow 11 (scenarioBucket (fixedClock 0) 0)))"
    by (simp add: concrete_defs method_defs)
  have g4: "throwingKeyHook ''a'' (fst (getState (snd (allow 11 (scenarioBucket (fixedClock 0) 0)))))
              = Throws"
    by (simp add: throwingKeyHook_def)
  note bucket_case = hook_throw_propagates[where b = "snd (allow 10 throwingBucket)" and hook = throwingHook
      and cost = 1]
  note registry_case = hook_throw_propagates[where m = throwingManager and keyHook = throwingKeyHook
      and key = "''a''" and now = 0 and b = "scenarioBucket (fixedClock 0) 0"
      and ?m1.0 = "snd (mgr_get ''a'' 0 throwingManager)" and cost = 11
      and ?b1.0 = "snd (allow 11 (scenarioBucket (fixedClock 0) 0))"]
  have r1: "fst (allow 1 (snd (allow 10 throwingBucket))) = Inl HookError"
    using bucket_case h1 h2 h3 by blast
  have r2: "fst (mgr_allow ''a'' 11 0 throwingManager) = Inl HookError"
    using registry_case g1 g2 g3 g4 by blast
  have s1: "limitedRequests (snd (allow 1 (snd (allow 10 throwingBucket)))) = 1"
    by (simp add: throwingBucket_def throwingHook_def concrete_defs method_defs)
  have s2: "tokens (snd (allow 1 (snd (allow 10 throwingBucket)))) = 0"
    by (simp add: throwingBucket_def throwingHook_def concrete_defs method_defs)
  have g2': "fst (mgr_get ''a'' 0 throwingManager) = Inr (scenarioBucket (fixedClock 0) 0)"
    by (subst g2) simp
  have g3': "fst (allow 11 (scenarioBucket (fixedClock 0) 0)) = Inr False"
    by (subst g3) simp
  show ?thesis
    using h1 h2 g1 g2' g3' r1 r2 s1 s2 by blast
qed

text \<open>
  C5 as stated fails: with a hook that throws, the denied \<^verbatim>\<open>allow(1)\<close> on the drained
  bucket of scenario A does not return false.
\<close>

theorem hook_throw_counterexample:
  "TokenBucket_new throwingOptions (fixedClock 0) = Inr throwingBucket
   \<and> fst (allow 10 throwingBucket) = Inr True
   \<and> fst (allow 1 (snd (allow 10 throwingBucket))) = Inl HookError
   \<and> fst (allow 1 (snd (allow 10 throwingBucket))) \<noteq> Inr False"
  by (simp add: throwingOptions_def throwingBucket_def throwingHook_def concrete_defs method_defs)

text \<open>
  C6, as amended. \<^verbatim>\<open>acquire(cost, timeoutMs)\<close> fails with the timeout error exactly
  when its loop reaches a pass in which \<^verbatim>\<open>allow(cost)\<close> fails, the wait computed by
  \<^verbatim>\<open>timeToRefill(cost)\<close> is positive, a deadline is set, and the time elapsed since
  entry plus the wait exceeds the deadline. (A wait of zero retries \<^verbatim>\<open>allow\<close> at once and
  the deadline is not looked at.) With capacity 1, rate 1, no token at \<open>t = 0\<close> and a
  clock that stands at 0, \<^verbatim>\<open>acquire(1, 100)\<close> fails with the timeout error.
\<close>

theorem acquire_timeout:
  "((\<exists>b'. acquire_loop cost timeoutMs start b = Some (Inl TimeoutError, b'))
      \<longleftrightarrow> (\<exists>n bn. passes n cost timeoutMs start b = Some bn \<and> timedOut cost timeoutMs start bn))
   \<and> ((\<exists>b'. acquire cost timeoutMs b = Some (Inl TimeoutError, b'))
      \<longleftrightarrow> (\<exists>b1 n bn. loopEntry cost b = Some b1
             \<and> passes n cost timeoutMs (getTime b (clockReads b)) b1 = Some bn
             \<and> timedOut cost timeoutMs (getTime b (clockReads b)) bn))
   \<and> acquire 1 (Some 100) (drainedBucket (fixedClock 0))
       = Some (Inl TimeoutError,
               (drainedBucket (fixedClock 0))
                 \<lparr>clockReads := 4, totalRequests := 1, limitedRequests := 1\<rparr>)"
proof -
  have loop: "(\<exists>b'. acquire_loop cost timeoutMs start b = Some (Inl TimeoutError, b'))
      \<longleftrightarrow> (\<exists>n bn. passes n cost timeoutMs start b = Some bn \<and> timedOut cost timeoutMs start bn)"
    for start b
    using timeout_has_pass[of cost timeoutMs start b] passes_timeout_returns[of _ cost timeoutMs start b]
    by blast
  have whole: "(\<exists>b'. acquire cost timeoutMs b = Some (Inl TimeoutError, b'))
      \<longleftrightarrow> (\<exists>b1 n bn. loopEntry cost b = Some b1
             \<and> passes n cost timeoutMs (getTime b (clockReads b)) b1 = Some bn
             \<and> timedOut cost timeoutMs (getTime b (clockReads b)) bn)"
  proof (cases "loopEntry cost b")
    case None
    then show ?thesis by (simp add: acquire_entry)
  next
    case (Some b1)
    then show ?thesis by (simp add: acquire_entry loop)
  qed
  have entry: "loopEntry 1 (drainedBucket (fixedClock 0))
                 = Some ((drainedBucket (fixedClock 0))\<lparr>clockReads := 1\<rparr>)"
    by (simp add: loopEntry_def concrete_defs readClock_def)
  have out: "timedOut 1 (Some 100) 0 ((drainedBucket (fixedClock 0))\<lparr>clockReads := 1\<rparr>)"
    by (simp add: timedOut_def concrete_defs method_defs)
  have left: "timedOutBucket 1 ((drainedBucket (fixedClock 0))\<lparr>clockReads := 1\<rparr>)
                = (drainedBucket (fixedClock 0))
                    \<lparr>clockReads := 4, totalRequests := 1, limitedRequests := 1\<rparr>"
    by (simp add: timedOutBucket_def concrete_defs method_defs)
  have scenario: "acquire 1 (Some 100) (drainedBucket (fixedClock 0))
       = Some (Inl TimeoutError,
               (drainedBucket (fixedClock 0))
                 \<lparr>clockReads := 4, totalRequests := 1, limitedRequests := 1\<rparr>)"
    using pass_timedOut[OF out] left
    by (simp add: acquire_entry entry) (simp add: concrete_defs)
  from loop whole scenario show ?thesis by blast
qed

theorem acquire_timeout_witness:
  "timedOut 1 (Some 100) 0 (drainedBucket (fixedClock 0))
   \<and> (\<exists>b'. acquire_loop 1 (Some 100) 0 (drainedBucket (fixedClock 0)) = Some (Inl TimeoutError, b'))"
proof -
  have out: "timedOut 1 (Some 100) 0 (drainedBucket (fixedClock 0))"
    by (simp add: timedOut_def concrete_defs method_defs)
  then have "\<exists>n bn. passes n 1 (Some 100) 0 (drainedBucket (fixedClock 0)) = Some bn
                \<and> timedOut 1 (Some 100) 0 bn"
    by (intro exI[of _ 0] exI[of _ "drainedBucket (fixedClock 0)"]) simp
  with acquire_timeout[of 1 "Some 100" 0 "drainedBucket (fixedClock 0)"] out
  show ?thesis by blast
qed

text \<open>
  C6 as stated fails. The clock reads 0 on entry and in \<^verbatim>\<open>allow\<close>, which is denied, and
  5000 from then on: \<^verbatim>\<open>timeToRefill\<close> refills and returns 0. A deadline of 100 is set and
  the elapsed 5000 ms plus the wait of 0 exceed it, yet \<^verbatim>\<open>acquire\<close> does not fail: the
  \<^verbatim>\<open>continue\<close> skips the test and the next \<^verbatim>\<open>allow\<close> succeeds.
\<close>

theorem acquire_zero_wait_counterexample:
  "timeoutDue 1 (Some 100) 0 ((drainedBucket (listClock [0, 0, 5000] 5000))\<lparr>clockReads := 1\<rparr>)
   \<and> loopEntry 1 (drainedBucket (listClock [0, 0, 5000] 5000))
       = Some ((drainedBucket (listClock [0, 0, 5000] 5000))\<lparr>clockReads := 1\<rparr>)
   \<and> acquire 1 (Some 100) (drainedBucket (listClock [0, 0, 5000] 5000))
       = Some (Inr (),
               (drainedBucket (listClock [0, 0, 5000] 5000))
                 \<lparr>lastRefillTimestamp := 5000, clockReads := 4, totalRequests := 2,
                   allowedRequests := 1, limitedRequests := 1\<rparr>)"
proof -
  let ?b = "drainedBucket (listClock [0, 0, 5000] 5000)"
  have due: "timeoutDue 1 (Some 100) 0 (?b\<lparr>clockReads := 1\<rparr>)"
    by (simp add: timeoutDue_def concrete_defs method_defs)
  have entry: "loopEntry 1 ?b = Some (?b\<lparr>clockReads := 1\<rparr>)"
    by (simp add: loopEntry_def concrete_defs readClock_def)
  have again: "retried 1 (Some 100) 0 (?b\<lparr>clockReads := 1\<rparr>)
      = Some (?b\<lparr>tokens := 1, lastRefillTimestamp := 5000, clockReads := 3,
                  totalRequests := 1, limitedRequests := 1\<rparr>)"
    by (simp add: retried_def concrete_defs method_defs)
  have final: "acquire_loop 1 (Some 100) 0
        (?b\<lparr>tokens := 1, lastRefillTimestamp := 5000, clockReads := 3,
             totalRequests := 1, limitedRequests := 1\<rparr>)
      = Some (Inr (), ?b\<lparr>lastRefillTimestamp := 5000, clockReads := 4, totalRequests := 2,
                   allowedRequests := 1, limitedRequests := 1\<rparr>)"
    by (subst acquire_loop.simps) (simp add: concrete_defs method_defs)
  have "acquire 1 (Some 100) ?b
      = Some (Inr (), ?b\<lparr>lastRefillTimestamp := 5000, clockReads := 4, totalRequests := 2,
                   allowedRequests := 1, limitedRequests := 1\<rparr>)"
    using pass_retried[OF again] final
    by (simp add: acquire_entry entry) (simp add: concrete_defs)
  with due entry show ?thesis by blast
qed



text \<open>
  C8. With a TTL, resolving a key whose entry satisfies \<^verbatim>\<open>now - lastAccess <= ttl\<close> returns
  the stored bucket and only moves \<^verbatim>\<open>lastAccess\<close>; when \<^verbatim>\<open>now - lastAccess > ttl\<close> the
  entry is dropped and the bucket that the factory builds is stored and returned. With
  \<^verbatim>\<open>ttlMs = 1000\<close> and key "a" resolved at 0: resolving it at 2000 returns the factory's
  second bucket, \<^verbatim>\<open>cleanup()\<close> at 500 changes nothing, and \<^verbatim>\<open>cleanup()\<close> at 1500 removes
  the entry.
\<close>

theorem registry_ttl:
  "(buckets m key = Some entry \<and> ttlMs m = Some ttl \<and> now - lastAccess entry \<le> ttl \<longrightarrow>
      mgr_get key now m
        = (Inr (bucket entry), m\<lparr>buckets := (buckets m)(key \<mapsto> entry\<lparr>lastAccess := now\<rparr>)\<rparr>))
   \<and> (buckets m key = Some entry \<and> ttlMs m = Some ttl \<and> now - lastAccess entry > ttl
        \<and> createBucket m key (created m) = Inr fresh \<longrightarrow>
      mgr_get key now m
        = (Inr fresh, m\<lparr>buckets := (buckets m)(key \<mapsto> \<lparr>bucket = fresh, lastAccess = now\<rparr>),
                         created := Suc (created m)\<rparr>))
   \<and> fst (mgr_get ''a'' 0 scenarioManager) = scenarioFactory ''a'' 0
   \<and> fst (mgr_get ''a'' 2000 resolvedManager) = scenarioFactory ''a'' 1
   \<and> created (snd (mgr_get ''a'' 2000 resolvedManager)) = 2
   \<and> fst (mgr_get ''a'' 2000 resolvedManager) \<noteq> fst (mgr_get ''a'' 0 scenarioManager)
   \<and> cleanup 500 resolvedManager = resolvedManager
   \<and> buckets resolvedManager ''a'' \<noteq> None
   \<and> buckets (cleanup 1500 resolvedManager) ''a'' = None"
proof -
  have first: "fst (mgr_get ''a'' 0 scenarioManager) = scenarioFactory ''a'' 0"
    by (simp add: scenarioManager_def TokenBucketManager_new_def mgr_get_def Let_def
          scenarioFactory_def concrete_defs)
  have present: "buckets resolvedManager ''a'' \<noteq> None"
    by (simp add: resolvedManager_eq)
  show ?thesis
    using first present resolve_2000 cleanup_500 cleanup_1500
    by (simp add: mgr_get_within_ttl mgr_get_past_ttl)
qed

theorem registry_ttl_witness:
  "buckets resolvedManager ''a''
     = Some \<lparr>bucket = scenarioBucket (fixedClock 0) 0, lastAccess = 0\<rparr>
   \<and> ttlMs resolvedManager = Some 1000
   \<and> createBucket resolvedManager ''a'' (created resolvedManager)
       = Inr (scenarioBucket (fixedClock 2000) 2000)
   \<and> fst (mgr_get ''a'' 1000 resolvedManager) = Inr (scenarioBucket (fixedClock 0) 0)
   \<and> created (snd (mgr_get ''a'' 1000 resolvedManager)) = 1
   \<and> fst (mgr_get ''a'' 1001 resolvedManager) = Inr (scenarioBucket (fixedClock 2000) 2000)
   \<and> created (snd (mgr_get ''a'' 1001 resolvedManager)) = 2"
proof -
  have e: "buckets resolvedManager ''a''
     = Some \<lparr>bucket = scenarioBucket (fixedClock 0) 0, lastAccess = 0\<rparr>"
    by (simp add: resolvedManager_eq concrete_defs fun_eq_iff)
  have t: "ttlMs resolvedManager = Some 1000"
    by (simp add: resolvedManager_eq)
  have f: "createBucket resolvedManager ''a'' (created resolvedManager)
       = Inr (scenarioBucket (fixedClock 2000) 2000)"
    by (simp add: resolvedManager_eq scenarioFactory_def concrete_defs fun_eq_iff)
  have c: "created resolvedManager = 1"
    by (simp add: resolvedManager_eq)
  have within: "mgr_get ''a'' 1000 resolvedManager
      = (Inr (scenarioBucket (fixedClock 0) 0),
         resolvedManager\<lparr>buckets := (buckets resolvedManager)
            (''a'' \<mapsto> \<lparr>bucket = scenarioBucket (fixedClock 0) 0, lastAccess = 0\<rparr>\<lparr>lastAccess := 1000\<rparr>)\<rparr>)"
    using registry_ttl[of resolvedManager "''a''"
            "\<lparr>bucket = scenarioBucket (fixedClock 0) 0, lastAccess = 0\<rparr>" 1000 1000
            "scenarioBucket (fixedClock 2000) 2000"] e t
    by simp
  have past: "mgr_get ''a'' 1001 resolvedManager
      = (Inr (scenarioBucket (fixedClock 2000) 2000),
         resolvedManager\<lparr>buckets := (buckets resolvedManager)
            (''a'' \<mapsto> \<lparr>bucket = scenarioBucket (fixedClock 2000) 2000, lastAccess = 1001\<rparr>),
            created := Suc (created resolvedManager)\<rparr>)"
    using registry_ttl[of resolvedManager "''a''"
            "\<lparr>bucket = scenarioBucket (fixedClock 0) 0, lastAccess = 0\<rparr>" 1000 1001
            "scenarioBucket (fixedClock 2000) 2000"] e t f
    by simp
  show ?thesis
    using e t f c by (simp add: within past)
qed

text \<open>
  C9. After every sequence of calls on a bucket that the constructor built,
  \<^verbatim>\<open>totalRequests = allowed + limited\<close>. One \<^verbatim>\<open>allow\<close> adds one to \<^verbatim>\<open>totalRequests\<close> and
  to exactly one of \<^verbatim>\<open>allowed\<close> and \<^verbatim>\<open>limited\<close>, also when its hook throws; \<^verbatim>\<open>check\<close>,
  \<^verbatim>\<open>timeToRefill\<close>, \<^verbatim>\<open>getState\<close> and \<^verbatim>\<open>reset\<close> leave \<^verbatim>\<open>getMetrics()\<close> as it was.
\<close>

theorem metrics_consistent:
  "(TokenBucket_new options dateNow = Inr b0 \<longrightarrow>
      m_totalRequests (getMetrics (run cs b0))
        = m_allowed (getMetrics (run cs b0)) + m_limited (getMetrics (run cs b0)))
   \<and> totalRequests (snd (allow cost b)) = totalRequests b + 1
   \<and> (allowedRequests (snd (allow cost b)) = allowedRequests b + 1
         \<and> limitedRequests (snd (allow cost b)) = limitedRequests b
       \<or> allowedRequests (snd (allow cost b)) = allowedRequests b
         \<and> limitedRequests (snd (allow cost b)) = limitedRequests b + 1)
   \<and> getMetrics (snd (check cost b)) = getMetrics b
   \<and> getMetrics (snd (timeToRefill cost b)) = getMetrics b
   \<and> getMetrics (snd (getState b)) = getMetrics b
   \<and> getMetrics (reset b) = getMetrics b"
proof -
  have step: "totalRequests (perform c b) = allowedRequests (perform c b) + limitedRequests (perform c b)"
    if "totalRequests b = allowedRequests b + limitedRequests b" for c b
  proof (cases c)
    case (Allow cost)
    then show ?thesis
      using that by (cases "cost \<le> tokens (refill b)") (simp_all add: allow_counters)
  qed (use that in \<open>simp_all add: check_def timeToRefill_def getState_def reset_def readClock_def
                     Let_def refill_frame\<close>)
  have runs: "totalRequests (run cs b) = allowedRequests (run cs b) + limitedRequests (run cs b)"
    if "totalRequests b = allowedRequests b + limitedRequests b" for b
    using that by (induction cs arbitrary: b) (simp_all add: step)
  have new: "totalRequests b0 = allowedRequests b0 + limitedRequests b0"
    if "TokenBucket_new options dateNow = Inr b0"
    using that by (auto simp: TokenBucket_new_def split: if_splits)
  have one: "allowedRequests (snd (allow cost b)) = allowedRequests b + 1
         \<and> limitedRequests (snd (allow cost b)) = limitedRequests b
       \<or> allowedRequests (snd (allow cost b)) = allowedRequests b
         \<and> limitedRequests (snd (allow cost b)) = limitedRequests b + 1"
    by (cases "cost \<le> tokens (refill b)") (simp_all add: allow_counters)
  have rst: "getMetrics (reset b) = getMetrics b"
    by (simp add: reset_def readClock_def getMetrics_def)
  show ?thesis
    using new runs one rst
    by (simp add: getMetrics_def allow_counters(1) readers_keep_metrics[unfolded getMetrics_def])
qed

theorem metrics_consistent_witness:
  "TokenBucket_new (scenarioOptions (fixedClock 0)) (fixedClock 5)
     = Inr (scenarioBucket (fixedClock 0) 5)
   \<and> m_totalRequests (getMetrics (run [Allow 10, Allow 1, Reset, Check 2] (scenarioBucket (fixedClock 0) 5))) = 2
   \<and> m_allowed (getMetrics (run [Allow 10, Allow 1, Reset, Check 2] (scenarioBucket (fixedClock 0) 5))) = 1
   \<and> m_limited (getMetrics (run [Allow 10, Allow 1, Reset, Check 2] (scenarioBucket (fixedClock 0) 5))) = 1"
proof -
  have h: "TokenBucket_new (scenarioOptions (fixedClock 0)) (fixedClock 5)
     = Inr (scenarioBucket (fixedClock 0) 5)"
    by (simp add: concrete_defs)
  have a: "m_allowed (getMetrics (run [Allow 10, Allow 1, Reset, Check 2] (scenarioBucket (fixedClock 0) 5))) = 1"
    by (simp add: concrete_defs method_defs getMetrics_def)
  have l: "m_limited (getMetrics (run [Allow 10, Allow 1, Reset, Check 2] (scenarioBucket (fixedClock 0) 5))) = 1"
    by (simp add: concrete_defs method_defs getMetrics_def)
  have "m_totalRequests (getMetrics (run [Allow 10, Allow 1, Reset, Check 2] (scenarioBucket (fixedClock 0) 5)))
      = m_allowed (getMetrics (run [Allow 10, Allow 1, Reset, Check 2] (scenarioBucket (fixedClock 0) 5)))
        + m_limited (getMetrics (run [Allow 10, Allow 1, Reset, Check 2] (scenarioBucket (fixedClock 0) 5)))"
    using metrics_consistent[of "scenarioOptions (fixedClock 0)" "fixedClock 5"
        "scenarioBucket (fixedClock 0) 5" "[Allow 10, Allow 1, Reset, Check 2]" 1
        "scenarioBucket (fixedClock 0) 5"] h
    by blast
  with h a l show ?thesis by simp
qed

text \<open>
  C10. \<^verbatim>\<open>reset()\<close> sets \<^verbatim>\<open>tokens\<close> to the capacity and \<^verbatim>\<open>lastRefillTimestamp\<close> to the
  reading of the bucket's clock, and changes no other field: capacity, refill rate, hook
  and the three counters are as before, so the metrics are not cleared. (The clock has
  been read once.)
\<close>

theorem reset_frame:
  "reset b = b\<lparr>tokens := capacity b,
              lastRefillTimestamp := getTime b (clockReads b),
              clockReads := Suc (clockReads b)\<rparr>
   \<and> tokens (reset b) = capacity b
   \<and> lastRefillTimestamp (reset b) = getTime b (clockReads b)
   \<and> capacity (reset b) = capacity b
   \<and> refillRate (reset b) = refillRate b
   \<and> totalRequests (reset b) = totalRequests b
   \<and> allowedRequests (reset b) = allowedRequests b
   \<and> limitedRequests (reset b) = limitedRequests b
   \<and> getMetrics (reset b) = getMetrics b"
  by (simp add: reset_def readClock_def getMetrics_def)

end
